theory Spec2Isabelle
  imports Complex_Main
begin

section \<open>Krotov pulse optimisation: a model of \<^verbatim>\<open>krotov/optimize.py\<close>\<close>

text \<open>
  The development follows \<^verbatim>\<open>src/krotov/optimize.py\<close> function by function.

  \<^item> Python exceptions are values of \<open>error\<close>; a function that can raise returns
    \<open>error + 'a\<close> with \<open>Inl\<close> for the exception.
  \<^item> Python floats are idealised as \<open>real\<close>, complex floats as \<open>complex\<close>; rounding,
    infinities and NaN are outside the model.  A float division by zero raises.
  \<^item> The pulse arrays are mutable numpy arrays that several variables refer to, so they live
    in an explicit store and the program variables hold addresses.
  \<^item> Quantum states and operators belong to the operator library; they are type variables
    (\<open>'s\<close>, \<open>'op\<close>) and the methods the code calls on them are fields of the environment
    record, like the injected collaborators (propagator, chi constructor, info hook).
    Collaborators are taken to return normally and not to write to the pulse arrays.
\<close>

subsection \<open>Exceptions and sequencing\<close>

datatype error =
    IndexError
  | TypeError
  | AttributeError
  | UnboundLocalError
  | NotImplementedError
  | ZeroDivisionError

definition ebind :: "error + 'a \<Rightarrow> ('a \<Rightarrow> error + 'b) \<Rightarrow> error + 'b" where
  "ebind m f = (case m of Inl e \<Rightarrow> Inl e | Inr x \<Rightarrow> f x)"

text \<open>A list comprehension or the serial map whose body can raise: left to right, stopping
  at the first exception.\<close>

fun emap :: "('a \<Rightarrow> error + 'b) \<Rightarrow> 'a list \<Rightarrow> error + 'b list" where
  "emap f [] = Inr []"
| "emap f (x # xs) = ebind (f x) (\<lambda>y. ebind (emap f xs) (\<lambda>ys. Inr (y # ys)))"

subsection \<open>Python indexing\<close>

text \<open>\<^verbatim>\<open>xs[i]\<close> for an integer \<open>i\<close>: a negative index counts from the end, an index outside
  \<open>-len .. len-1\<close> raises IndexError.\<close>

definition py_index :: "'a list \<Rightarrow> int \<Rightarrow> error + 'a" where
  "py_index xs i =
     (if 0 \<le> i \<and> i < int (length xs) then Inr (xs ! nat i)
      else if i < 0 \<and> - int (length xs) \<le> i then Inr (xs ! nat (int (length xs) + i))
      else Inl IndexError)"

text \<open>\<^verbatim>\<open>xs[i] = v\<close>.\<close>

definition py_setitem :: "'a list \<Rightarrow> int \<Rightarrow> 'a \<Rightarrow> error + 'a list" where
  "py_setitem xs i v =
     (if 0 \<le> i \<and> i < int (length xs) then Inr (xs[nat i := v])
      else if i < 0 \<and> - int (length xs) \<le> i then Inr (xs[nat (int (length xs) + i) := v])
      else Inl IndexError)"

text \<open>The same two operations for a loop index, which is never negative.\<close>

definition py_nth :: "'a list \<Rightarrow> nat \<Rightarrow> error + 'a" where
  "py_nth xs n = (if n < length xs then Inr (xs ! n) else Inl IndexError)"

definition py_set_nth :: "'a list \<Rightarrow> nat \<Rightarrow> 'a \<Rightarrow> error + 'a list" where
  "py_set_nth xs n v = (if n < length xs then Inr (xs[n := v]) else Inl IndexError)"

text \<open>\<^verbatim>\<open>int(x)\<close> of a float truncates towards zero.\<close>

definition py_int :: "real \<Rightarrow> int" where
  "py_int x = (if 0 \<le> x then \<lfloor>x\<rfloor> else \<lceil>x\<rceil>)"

subsection \<open>The store of pulse arrays\<close>

type_synonym addr = nat

record store =
  cells :: "addr \<Rightarrow> real list"
  next_addr :: addr

definition empty_store :: store where
  "empty_store = \<lparr>cells = (\<lambda>_. []), next_addr = 0\<rparr>"

text \<open>A new numpy array holding \<open>xs\<close>.\<close>

definition new_array :: "real list \<Rightarrow> store \<Rightarrow> addr \<times> store" where
  "new_array xs s =
     (next_addr s, s\<lparr>cells := (cells s)(next_addr s := xs), next_addr := Suc (next_addr s)\<rparr>)"

fun new_arrays :: "real list list \<Rightarrow> store \<Rightarrow> addr list \<times> store" where
  "new_arrays [] s = ([], s)"
| "new_arrays (xs # xss) s =
     (case new_array xs s of (a, s1) \<Rightarrow>
        (case new_arrays xss s1 of (as, s2) \<Rightarrow> (a # as, s2)))"

text \<open>\<^verbatim>\<open>copy.deepcopy(pulses)\<close> of a list of distinct arrays: a new list of new arrays with
  the same contents.\<close>

definition deepcopy :: "addr list \<Rightarrow> store \<Rightarrow> addr list \<times> store" where
  "deepcopy ps s = new_arrays (map (cells s) ps) s"

text \<open>The values a list of array references denotes.\<close>

definition pulse_values :: "store \<Rightarrow> addr list \<Rightarrow> real list list" where
  "pulse_values s ps = map (cells s) ps"

text \<open>\<^verbatim>\<open>a[n] += d\<close> on the array at address \<open>a\<close>.\<close>

definition array_add_at :: "addr \<Rightarrow> nat \<Rightarrow> real \<Rightarrow> store \<Rightarrow> error + store" where
  "array_add_at a n d s =
     (if n < length (cells s a)
      then Inr (s\<lparr>cells := (cells s)(a := (cells s a)[n := cells s a ! n + d])\<rparr>)
      else Inl IndexError)"

subsection \<open>Objectives, options, collaborators\<close>

text \<open>An entry of a nested-list Hamiltonian \<^verbatim>\<open>[H0, [H1, eps1], ...]\<close>: a bare operator or
  a pair of an operator and a control.  A dissipation operator is such an entry, too.
  After the pulse values are plugged in, the control of a pair is a number.\<close>

datatype ('op, 'c) hterm = Bare 'op | Timedep 'op 'c

record ('op, 'c, 's) objective =
  H :: "('op, 'c) hterm list"
  c_ops :: "('op, 'c) hterm list"
  initial_state :: 's
  target_state :: 's

record pulse_options =
  lambda_a :: real
  shape :: "real \<Rightarrow> real"

text \<open>The pulse mapping of one objective: for each operator slot (0 the Hamiltonian, \<open>k+1\<close> the
  \<open>k\<close>-th dissipation operator), for each pulse, the positions that depend on the pulse.\<close>

type_synonym mapping = "int list list list"

text \<open>A storage array: \<^verbatim>\<open>numpy.empty(N, dtype=object)\<close> holds \<open>None\<close> in every slot that has
  not been written.\<close>

type_synonym 's trajectory = "'s option list"

text \<open>The value \<^verbatim>\<open>_derivative_wrt_pulse\<close> returns: the integer 0 or an operator.\<close>

datatype 'op mu = Zero | Mu 'op

text \<open>The result object.  The \<^verbatim>\<open>Result\<close> class is not among the sources; the fields are those
  the optimisation writes.  The pulse snapshots are references into the store.\<close>

record ('s, 'i) result =
  iters :: "int list"
  iter_seconds :: "int list"
  info_vals :: "'i option list"
  tau_vals :: "complex list list"
  all_pulses :: "addr list list"
  optimized_controls :: "addr list option"
  states :: "'s list"

text \<open>Modelled from the spec: the constructor of the \<^verbatim>\<open>Result\<close> class (module \<^verbatim>\<open>result\<close>) is
  missing; the result is an accumulation object that is only appended to, so a fresh one has
  empty histories.\<close>

definition Result :: "('s, 'i) result" where
  "Result = \<lparr>iters = [], iter_seconds = [], info_vals = [], tau_vals = [], all_pulses = [],
     optimized_controls = None, states = []\<rparr>"

text \<open>The arguments of \<^verbatim>\<open>optimize_pulses\<close> that the code uses, the functions of the modules
  \<^verbatim>\<open>structural_conversions\<close> and \<^verbatim>\<open>objective\<close> it calls (their sources are missing, so they
  are parameters), the methods of states and operators, and the clock.

  \<^item> \<open>pulses_mapping\<close>, \<open>options_list\<close>, \<open>tlist_midpoints\<close>: what \<^verbatim>\<open>extract_controls_mapping\<close>,
    \<^verbatim>\<open>pulse_options_dict_to_list\<close> and \<^verbatim>\<open>_tlist_midpoints\<close> returned during initialisation.
  \<^item> \<open>plug_H\<close>, \<open>plug_c\<close>: \<^verbatim>\<open>plug_in_pulse_values\<close> at a Hamiltonian and at one dissipation
    operator.
  \<^item> \<open>info_hook\<close>: \<open>None\<close> is Python's \<open>None\<close>.  Its arguments are, in this order, objectives,
    adjoint objectives, backward states, forward states, final states, tau values, start
    time, stop time, iteration.
  \<^item> \<open>op_add\<close> is \<^verbatim>\<open>mu + op\<close>, \<open>op_times\<close> is \<^verbatim>\<open>mu * psi\<close> for an operator \<open>mu\<close>,
    \<open>zero_times\<close> is \<^verbatim>\<open>0 * psi\<close>, \<open>overlap\<close> is \<^verbatim>\<open>chi.overlap(psi)\<close>, \<open>norm_of\<close> is
    \<^verbatim>\<open>chi.norm()\<close>, \<open>state_div\<close> is \<^verbatim>\<open>chi / nrm\<close>.
  \<^item> \<open>clock n\<close> is what the \<open>n\<close>-th call of \<^verbatim>\<open>time.clock()\<close> returns.
\<close>

record ('op, 'c, 's, 'i) env =
  objectives :: "('op, 'c, 's) objective list"
  tlist :: "real list"
  tlist_midpoints :: "real list"
  pulses_mapping :: "mapping list"
  options_list :: "pulse_options list"
  propagator ::
    "('op, real) hterm list \<Rightarrow> 's \<Rightarrow> real \<Rightarrow> ('op, real) hterm list \<Rightarrow> bool \<Rightarrow> 's"
  chi_constructor ::
    "'s list \<Rightarrow> ('op, 'c, 's) objective list \<Rightarrow> complex list list \<Rightarrow> 's list"
  info_hook ::
    "(('op, 'c, 's) objective list \<Rightarrow> ('op, 'c, 's) objective list \<Rightarrow>
      's trajectory list option \<Rightarrow> 's trajectory list \<Rightarrow> 's list \<Rightarrow> complex list \<Rightarrow>
      real \<Rightarrow> real \<Rightarrow> int \<Rightarrow> 'i) option"
  store_all_pulses :: bool
  adjoint :: "('op, 'c, 's) objective \<Rightarrow> ('op, 'c, 's) objective"
  plug_H :: "('op, 'c) hterm list \<Rightarrow> real list list \<Rightarrow> int list list \<Rightarrow> nat \<Rightarrow>
    ('op, real) hterm list"
  plug_c :: "('op, 'c) hterm \<Rightarrow> real list list \<Rightarrow> int list list \<Rightarrow> nat \<Rightarrow>
    ('op, real) hterm"
  pulse_onto_tlist :: "real list \<Rightarrow> real list"
  op_add :: "'op \<Rightarrow> 'op \<Rightarrow> 'op"
  op_times :: "'op \<Rightarrow> 's \<Rightarrow> 's"
  zero_times :: "'s \<Rightarrow> 's"
  overlap :: "'s \<Rightarrow> 's \<Rightarrow> complex"
  norm_of :: "'s \<Rightarrow> real"
  state_div :: "'s \<Rightarrow> real \<Rightarrow> 's"
  clock :: "nat \<Rightarrow> real"

subsection \<open>The control derivative\<close>

text \<open>\<^verbatim>\<open>objective.H[k][0]\<close>: item 0 of a pair \<^verbatim>\<open>[operator, control]\<close> is the operator.  Item 0
  of a bare operator is matrix data of the operator library and no operator; the pulse
  mapping lists only positions of pairs, and the model treats this case as a type error.\<close>

fun item0 :: "('op, 'c) hterm \<Rightarrow> error + 'op" where
  "item0 (Timedep a c) = Inr a"
| "item0 (Bare a) = Inl TypeError"

text \<open>\<^verbatim>\<open>for i in ham_mapping[1:]: mu += objective.H[ham_mapping[i]][0]\<close>.  The loop variable
  \<open>i\<close> is an entry of \<open>ham_mapping\<close>, and the body indexes \<open>ham_mapping\<close> with it.\<close>

fun add_terms ::
  "('op \<Rightarrow> 'op \<Rightarrow> 'op) \<Rightarrow> ('op, 'c) hterm list \<Rightarrow> int list \<Rightarrow> int list \<Rightarrow> 'op \<Rightarrow> error + 'op"
where
  "add_terms add Hs ham_mapping [] m = Inr m"
| "add_terms add Hs ham_mapping (i # rest) m =
     ebind (py_index ham_mapping i) (\<lambda>k.
     ebind (py_index Hs k) (\<lambda>t.
     ebind (item0 t) (\<lambda>a.
       add_terms add Hs ham_mapping rest (add m a))))"

text \<open>\<^verbatim>\<open>for i_c_op in range(len(objective.c_ops)): if len(mapping[i_c_op+1][i_pulse]) != 0:
  raise NotImplementedError\<close>.\<close>

fun check_c_ops :: "mapping \<Rightarrow> nat \<Rightarrow> nat list \<Rightarrow> error + unit" where
  "check_c_ops mapping i_pulse [] = Inr ()"
| "check_c_ops mapping i_pulse (i_c_op # rest) =
     ebind (py_nth mapping (i_c_op + 1)) (\<lambda>slot.
     ebind (py_nth slot i_pulse) (\<lambda>ps.
       if length ps \<noteq> 0 then Inl NotImplementedError
       else check_c_ops mapping i_pulse rest))"

text \<open>\<^verbatim>\<open>_derivative_wrt_pulse(objective, pulses, mapping, i_pulse)\<close>; the first argument of the
  model is the operator addition.  The argument \<open>pulses\<close> is not used.\<close>

definition derivative_wrt_pulse ::
  "('op \<Rightarrow> 'op \<Rightarrow> 'op) \<Rightarrow> ('op, 'c, 's) objective \<Rightarrow> addr list \<Rightarrow> mapping \<Rightarrow> nat \<Rightarrow>
   error + 'op mu"
where
  "derivative_wrt_pulse add objective pulses mapping i_pulse =
     ebind (py_nth mapping 0) (\<lambda>slot0.
     ebind (py_nth slot0 i_pulse) (\<lambda>ham_mapping.
       if length ham_mapping = 0 then Inr Zero
       else
         ebind (py_index ham_mapping 0) (\<lambda>k0.
         ebind (py_index (H objective) k0) (\<lambda>t0.
         ebind (item0 t0) (\<lambda>mu0.
         ebind (add_terms add (H objective) ham_mapping (tl ham_mapping) mu0) (\<lambda>m.
         ebind (check_c_ops mapping i_pulse [0..<length (c_ops objective)]) (\<lambda>_.
           Inr (Mu m))))))))"

text \<open>\<^verbatim>\<open>mu * psi\<close> for the value the derivative returned.\<close>

definition mu_times :: "('op, 'c, 's, 'i) env \<Rightarrow> 'op mu \<Rightarrow> 's \<Rightarrow> 's" where
  "mu_times E m psi = (case m of Zero \<Rightarrow> zero_times E psi | Mu a \<Rightarrow> op_times E a psi)"

subsection \<open>Propagation\<close>

text \<open>\<^verbatim>\<open>[plug_in_pulse_values(c_op, pulses, mapping[ic+1], time_index)
  for (ic, c_op) in enumerate(obj.c_ops)]\<close>.\<close>

definition plug_c_ops ::
  "('op, 'c, 's, 'i) env \<Rightarrow> ('op, 'c, 's) objective \<Rightarrow> real list list \<Rightarrow> mapping \<Rightarrow> nat \<Rightarrow>
   error + ('op, real) hterm list"
where
  "plug_c_ops E obj pulses mapping time_index =
     emap (\<lambda>(ic, c_op).
             ebind (py_nth mapping (ic + 1)) (\<lambda>slot.
               Inr (plug_c E c_op pulses slot time_index)))
          (enumerate 0 (c_ops obj))"

text \<open>The four lines that the three propagation routines share: build \<open>H\<close> and the dissipation
  operators at the pulse values of the interval, take \<open>dt\<close>, call the propagator.  The
  forward routines call it without the keyword \<open>backwards\<close>, whose default is \<open>False\<close>.\<close>

definition propagation_step ::
  "('op, 'c, 's, 'i) env \<Rightarrow> ('op, 'c, 's) objective \<Rightarrow> real list list \<Rightarrow> mapping \<Rightarrow> nat \<Rightarrow>
   's \<Rightarrow> bool \<Rightarrow> error + 's"
where
  "propagation_step E obj pulses mapping time_index state backwards =
     ebind (py_nth mapping 0) (\<lambda>slot0.
     ebind (plug_c_ops E obj pulses mapping time_index) (\<lambda>cs.
     ebind (py_nth (tlist E) (time_index + 1)) (\<lambda>t1.
     ebind (py_nth (tlist E) time_index) (\<lambda>t0.
       Inr (propagator E (plug_H E (H obj) pulses slot0 time_index) state (t1 - t0) cs
              backwards)))))"

text \<open>\<^verbatim>\<open>for time_index in range(len(tlist)-1)\<close> of \<^verbatim>\<open>_forward_propagation\<close>.\<close>

fun forward_loop ::
  "('op, 'c, 's, 'i) env \<Rightarrow> ('op, 'c, 's) objective \<Rightarrow> real list list \<Rightarrow> mapping \<Rightarrow> nat list \<Rightarrow>
   's \<Rightarrow> 's trajectory \<Rightarrow> error + 's trajectory"
where
  "forward_loop E obj pulses mapping [] state storage_array = Inr storage_array"
| "forward_loop E obj pulses mapping (time_index # rest) state storage_array =
     ebind (propagation_step E obj pulses mapping time_index state False) (\<lambda>state'.
     ebind (py_set_nth storage_array (time_index + 1) (Some state')) (\<lambda>storage_array'.
       forward_loop E obj pulses mapping rest state' storage_array'))"

text \<open>\<^verbatim>\<open>_forward_propagation\<close> with \<open>store_all=True\<close>, the only way it is called.\<close>

definition forward_propagation ::
  "('op, 'c, 's, 'i) env \<Rightarrow> nat \<Rightarrow> ('op, 'c, 's) objective list \<Rightarrow> real list list \<Rightarrow>
   mapping list \<Rightarrow> error + 's trajectory"
where
  "forward_propagation E i_objective objs pulses pmapping =
     ebind (py_nth objs i_objective) (\<lambda>obj.
     ebind (py_setitem (replicate (length (tlist E)) None) 0 (Some (initial_state obj)))
       (\<lambda>storage_array.
     ebind (py_nth pmapping i_objective) (\<lambda>mapping.
       forward_loop E obj pulses mapping [0..<length (tlist E) - 1] (initial_state obj)
         storage_array)))"

text \<open>\<^verbatim>\<open>for time_index in range(len(tlist)-2, -1, -1)\<close> of \<^verbatim>\<open>_backward_propagation\<close>.\<close>

fun backward_loop ::
  "('op, 'c, 's, 'i) env \<Rightarrow> ('op, 'c, 's) objective \<Rightarrow> real list list \<Rightarrow> mapping \<Rightarrow> nat list \<Rightarrow>
   's \<Rightarrow> 's trajectory \<Rightarrow> error + 's trajectory"
where
  "backward_loop E obj pulses mapping [] state storage_array = Inr storage_array"
| "backward_loop E obj pulses mapping (time_index # rest) state storage_array =
     ebind (propagation_step E obj pulses mapping time_index state True) (\<lambda>state'.
     ebind (py_set_nth storage_array time_index (Some state')) (\<lambda>storage_array'.
       backward_loop E obj pulses mapping rest state' storage_array'))"

definition backward_propagation ::
  "('op, 'c, 's, 'i) env \<Rightarrow> nat \<Rightarrow> 's list \<Rightarrow> ('op, 'c, 's) objective list \<Rightarrow> real list list \<Rightarrow>
   mapping list \<Rightarrow> error + 's trajectory"
where
  "backward_propagation E i_state chi_states adjoint_objectives pulses pmapping =
     ebind (py_nth chi_states i_state) (\<lambda>state.
     ebind (py_nth adjoint_objectives i_state) (\<lambda>obj.
     ebind (py_setitem (replicate (length (tlist E)) None) (- 1) (Some state))
       (\<lambda>storage_array.
     ebind (py_nth pmapping i_state) (\<lambda>mapping.
       backward_loop E obj pulses mapping (rev [0..<length (tlist E) - 1]) state
         storage_array))))"

text \<open>\<^verbatim>\<open>_forward_propagation_step\<close>.  A slot that was never written holds \<open>None\<close>, which is
  no state.\<close>

definition forward_propagation_step ::
  "('op, 'c, 's, 'i) env \<Rightarrow> nat \<Rightarrow> 's trajectory list \<Rightarrow> ('op, 'c, 's) objective list \<Rightarrow>
   real list list \<Rightarrow> mapping list \<Rightarrow> nat \<Rightarrow> error + 's"
where
  "forward_propagation_step E i_state sts objs pulses pmapping time_index =
     ebind (py_nth sts i_state) (\<lambda>traj.
     ebind (py_nth traj time_index) (\<lambda>slot.
     ebind (py_nth objs i_state) (\<lambda>obj.
     ebind (py_nth pmapping i_state) (\<lambda>mapping.
       case slot of
         None \<Rightarrow> Inl TypeError
       | Some state \<Rightarrow> propagation_step E obj pulses mapping time_index state False))))"

subsection \<open>The pulse update within one iteration\<close>

text \<open>The body of the loop over the objectives, up to the accumulation:
  \<^verbatim>\<open>chi = backward_states[i_obj][time_index]; mu = _derivative_wrt_pulse(...);
  psi = forward_states[i_obj][time_index]; update = chi.overlap(mu * psi);
  update *= chi_norms[i_obj]\<close>.\<close>

definition update_term ::
  "('op, 'c, 's, 'i) env \<Rightarrow> 's trajectory list \<Rightarrow> 's trajectory list \<Rightarrow> real list \<Rightarrow>
   addr list \<Rightarrow> nat \<Rightarrow> nat \<Rightarrow> nat \<Rightarrow> error + complex"
where
  "update_term E bw_states fw_states chi_norms guess time_index i_pulse i_obj =
     ebind (py_nth (objectives E) i_obj) (\<lambda>objective.
     ebind (py_nth bw_states i_obj) (\<lambda>bw.
     ebind (py_nth bw time_index) (\<lambda>chi.
     ebind (py_nth (pulses_mapping E) i_obj) (\<lambda>mapping.
     ebind (derivative_wrt_pulse (op_add E) objective guess mapping i_pulse) (\<lambda>m.
     ebind (py_nth fw_states i_obj) (\<lambda>fw.
     ebind (py_nth fw time_index) (\<lambda>psi.
       case chi of
         None \<Rightarrow> Inl AttributeError
       | Some chi' \<Rightarrow>
           (case psi of
              None \<Rightarrow> Inl TypeError
            | Some psi' \<Rightarrow>
                ebind (py_nth chi_norms i_obj) (\<lambda>nrm.
                  Inr (overlap E chi' (mu_times E m psi') * complex_of_real nrm))))))))))"

text \<open>\<^verbatim>\<open>delta_eps[i_pulse][time_index] += update\<close>.\<close>

definition matrix_add_at ::
  "complex list list \<Rightarrow> nat \<Rightarrow> nat \<Rightarrow> complex \<Rightarrow> error + complex list list"
where
  "matrix_add_at d p n u =
     ebind (py_nth d p) (\<lambda>row.
     ebind (py_nth row n) (\<lambda>x.
       Inr (d[p := row[n := x + u]])))"

text \<open>\<^verbatim>\<open>for (i_obj, objective) in enumerate(objectives)\<close>.\<close>

fun objectives_loop ::
  "('op, 'c, 's, 'i) env \<Rightarrow> 's trajectory list \<Rightarrow> 's trajectory list \<Rightarrow> real list \<Rightarrow>
   addr list \<Rightarrow> nat \<Rightarrow> nat \<Rightarrow> nat list \<Rightarrow> complex list list \<Rightarrow> error + complex list list"
where
  "objectives_loop E bw_states fw_states chi_norms guess time_index i_pulse [] delta_eps =
     Inr delta_eps"
| "objectives_loop E bw_states fw_states chi_norms guess time_index i_pulse (i_obj # rest)
     delta_eps =
     ebind (update_term E bw_states fw_states chi_norms guess time_index i_pulse i_obj)
       (\<lambda>update.
     ebind (matrix_add_at delta_eps i_pulse time_index update) (\<lambda>delta_eps'.
       objectives_loop E bw_states fw_states chi_norms guess time_index i_pulse rest
         delta_eps'))"

text \<open>\<^verbatim>\<open>for (i_pulse, guess_pulse) in enumerate(guess_pulses)\<close>: the loop over the objectives,
  then step size and shape, then the write into the optimized pulse.  The state of the loop
  is the store and \<open>delta_eps\<close>.\<close>

fun pulses_loop ::
  "('op, 'c, 's, 'i) env \<Rightarrow> 's trajectory list \<Rightarrow> 's trajectory list \<Rightarrow> real list \<Rightarrow>
   addr list \<Rightarrow> addr list \<Rightarrow> nat \<Rightarrow> real \<Rightarrow> nat list \<Rightarrow> store \<times> complex list list \<Rightarrow>
   error + store \<times> complex list list"
where
  "pulses_loop E bw_states fw_states chi_norms guess optimized time_index t [] sd = Inr sd"
| "pulses_loop E bw_states fw_states chi_norms guess optimized time_index t (i_pulse # rest)
     sd =
     ebind (objectives_loop E bw_states fw_states chi_norms guess time_index i_pulse
              [0..<length (objectives E)] (snd sd)) (\<lambda>delta_eps.
     ebind (py_nth (options_list E) i_pulse) (\<lambda>opts.
       if lambda_a opts = 0 then Inl ZeroDivisionError
       else
         ebind (py_nth delta_eps i_pulse) (\<lambda>row.
         ebind (py_nth row time_index) (\<lambda>acc.
         ebind (py_nth optimized i_pulse) (\<lambda>a.
         ebind (array_add_at a time_index (shape opts t / lambda_a opts * Im acc) (fst sd))
           (\<lambda>s'.
           pulses_loop E bw_states fw_states chi_norms guess optimized time_index t rest
             (s', delta_eps)))))))"

text \<open>\<^verbatim>\<open>for i_obj in range(len(objectives)):
  forward_states[i_obj][time_index + 1] = fw_states[i_obj]\<close>.\<close>

fun store_states ::
  "'s list \<Rightarrow> nat \<Rightarrow> nat list \<Rightarrow> 's trajectory list \<Rightarrow> error + 's trajectory list"
where
  "store_states fw_states k [] fws = Inr fws"
| "store_states fw_states k (i_obj # rest) fws =
     ebind (py_nth fw_states i_obj) (\<lambda>st.
     ebind (py_nth fws i_obj) (\<lambda>traj.
     ebind (py_set_nth traj k (Some st)) (\<lambda>traj'.
       store_states fw_states k rest (fws[i_obj := traj']))))"

text \<open>The variables that the loop over the midpoints changes: the store (through
  \<open>optimized_pulses\<close>), \<open>forward_states\<close>, \<open>delta_eps\<close>, and \<open>fw_states\<close>, which is unbound
  until the first pass has assigned it.\<close>

record 's sweep =
  sw_store :: store
  sw_forward_states :: "'s trajectory list"
  sw_delta_eps :: "complex list list"
  sw_fw_states :: "'s list option"

text \<open>\<^verbatim>\<open>for (time_index, t) in enumerate(tlist_midpoints)\<close>.  The parallel map is the serial
  map, its default.\<close>

fun time_loop ::
  "('op, 'c, 's, 'i) env \<Rightarrow> 's trajectory list \<Rightarrow> real list \<Rightarrow> addr list \<Rightarrow> addr list \<Rightarrow>
   (nat \<times> real) list \<Rightarrow> 's sweep \<Rightarrow> error + 's sweep"
where
  "time_loop E bw_states chi_norms guess optimized [] sw = Inr sw"
| "time_loop E bw_states chi_norms guess optimized (nt # rest) sw =
     ebind (pulses_loop E bw_states (sw_forward_states sw) chi_norms guess optimized
              (fst nt) (snd nt) [0..<length guess] (sw_store sw, sw_delta_eps sw)) (\<lambda>sd.
     ebind (emap (\<lambda>i. forward_propagation_step E i (sw_forward_states sw) (objectives E)
                        (pulse_values (fst sd) optimized) (pulses_mapping E) (fst nt))
              [0..<length (objectives E)]) (\<lambda>fw_states.
     ebind (store_states fw_states (fst nt + 1) [0..<length (objectives E)]
              (sw_forward_states sw)) (\<lambda>fws.
       time_loop E bw_states chi_norms guess optimized rest
         \<lparr>sw_store = fst sd, sw_forward_states = fws, sw_delta_eps = snd sd,
          sw_fw_states = Some fw_states\<rparr>)))"

subsection \<open>The optimisation driver\<close>

text \<open>The local variables of \<^verbatim>\<open>optimize_pulses\<close> that live across iterations, and the store.
  \<open>optimized_pulses\<close> is unbound before the first pass of the loop; \<open>backward_states\<close> is
  \<open>None\<close> where the code passes \<open>None\<close> to the hook.  \<open>clock_calls\<close> counts the calls of
  \<^verbatim>\<open>time.clock()\<close> so far.\<close>

record ('s, 'i) kstate =
  pulse_store :: store
  guess_pulses :: "addr list"
  optimized_pulses :: "addr list option"
  forward_states :: "'s trajectory list"
  backward_states :: "'s trajectory list option"
  fw_states_T :: "'s list"
  res :: "('s, 'i) result"
  clock_calls :: nat

text \<open>\<^verbatim>\<open>[s.overlap(obj.target_state) for (s, obj) in zip(fw_states_T, objectives)]\<close>.\<close>

definition tau_of :: "('op, 'c, 's, 'i) env \<Rightarrow> 's list \<Rightarrow> complex list" where
  "tau_of E sts = map (\<lambda>(s, obj). overlap E s (target_state obj)) (zip sts (objectives E))"

text \<open>Lines 80 to 124: initialisation, the first forward propagation, and the bookkeeping of
  iteration 0.  \<open>guess\<close> holds the values of the guess pulses that
  \<^verbatim>\<open>_initialize_krotov_controls\<close> produced; they become new arrays.  The hook is called
  without a test for \<open>None\<close>, and calling \<open>None\<close> raises TypeError.  The seconds of iteration 0
  are appended on line 118 and again on line 120.\<close>

definition initialize ::
  "('op, 'c, 's, 'i) env \<Rightarrow> real list list \<Rightarrow> error + ('s, 'i) kstate"
where
  "initialize E guess =
     (let adjoint_objectives = map (adjoint E) (objectives E);
          (guess_pulses0, s0) = new_arrays guess empty_store;
          tic = clock E 0
      in
      ebind (emap (\<lambda>i. forward_propagation E i (objectives E) (pulse_values s0 guess_pulses0)
                          (pulses_mapping E))
               [0..<length (objectives E)]) (\<lambda>fwd.
      let toc = clock E 1 in
      ebind (emap (\<lambda>sts. py_index sts (- 1)) fwd) (\<lambda>lasts.
      ebind (emap (\<lambda>v. case v of None \<Rightarrow> Inl AttributeError | Some s \<Rightarrow> Inr s) lasts)
        (\<lambda>fw_T.
      let tau = tau_of E fw_T in
      case info_hook E of
        None \<Rightarrow> Inl TypeError
      | Some hook \<Rightarrow>
          let info = hook (objectives E) adjoint_objectives None fwd fw_T tau tic toc 0;
              r0 = Result;
              r1 = r0\<lparr>iters := iters r0 @ [0]\<rparr>;
              r2 = r1\<lparr>iter_seconds := iter_seconds r1 @ [py_int (toc - tic)]\<rparr>;
              r3 = r2\<lparr>info_vals := info_vals r2 @ [Some info]\<rparr>;
              r4 = r3\<lparr>iter_seconds := iter_seconds r3 @ [py_int (toc - tic)]\<rparr>;
              r5 = r4\<lparr>tau_vals := tau_vals r4 @ [tau]\<rparr>;
              r6 = (if store_all_pulses E then r5\<lparr>all_pulses := all_pulses r5 @ [guess_pulses0]\<rparr>
                    else r5)
          in
          Inr \<lparr>pulse_store = s0,
               guess_pulses = guess_pulses0,
               optimized_pulses = None,
               forward_states = fwd,
               backward_states = None,
               fw_states_T = fw_T,
               res = r6\<lparr>states := fw_T\<rparr>,
               clock_calls = 2\<rparr>))))"

text \<open>Lines 128 to 208: one pass of the loop, for the iteration number \<open>krotov_iteration\<close>.
  If \<open>tlist_midpoints\<close> is empty, \<open>fw_states\<close> is unbound on line 180.\<close>

definition iteration ::
  "('op, 'c, 's, 'i) env \<Rightarrow> int \<Rightarrow> ('s, 'i) kstate \<Rightarrow> error + ('s, 'i) kstate"
where
  "iteration E krotov_iteration st =
     (let adjoint_objectives = map (adjoint E) (objectives E);
          tic = clock E (clock_calls st);
          chi_states0 = chi_constructor E (fw_states_T st) (objectives E) (tau_vals (res st));
          chi_norms = map (norm_of E) chi_states0;
          chi_states = map (\<lambda>(chi, nrm). state_div E chi nrm) (zip chi_states0 chi_norms)
      in
      ebind (emap (\<lambda>i. backward_propagation E i chi_states adjoint_objectives
                          (pulse_values (pulse_store st) (guess_pulses st)) (pulses_mapping E))
               [0..<length (objectives E)]) (\<lambda>bwd.
      ebind (emap (\<lambda>obj. py_setitem (replicate (length (tlist E)) None) 0
                            (Some (initial_state obj)))
               (objectives E)) (\<lambda>fwd0.
      let delta_eps0 = replicate (length (guess_pulses st))
                         (replicate (length (tlist_midpoints E)) 0);
          (optimized, s1) = deepcopy (guess_pulses st) (pulse_store st)
      in
      ebind (time_loop E bwd chi_norms (guess_pulses st) optimized
               (enumerate 0 (tlist_midpoints E))
               \<lparr>sw_store = s1, sw_forward_states = fwd0, sw_delta_eps = delta_eps0,
                sw_fw_states = None\<rparr>) (\<lambda>sw.
      case sw_fw_states sw of
        None \<Rightarrow> Inl UnboundLocalError
      | Some fw_T \<Rightarrow>
          let tau = tau_of E fw_T;
              toc = clock E (clock_calls st + 1);
              info = (case info_hook E of
                        None \<Rightarrow> None
                      | Some hook \<Rightarrow>
                          Some (hook (objectives E) adjoint_objectives (Some bwd)
                                  (sw_forward_states sw) fw_T tau tic toc krotov_iteration));
              r = res st
          in
          Inr \<lparr>pulse_store = sw_store sw,
               guess_pulses = optimized,
               optimized_pulses = Some optimized,
               forward_states = sw_forward_states sw,
               backward_states = Some bwd,
               fw_states_T = fw_T,
               res = r\<lparr>iters := iters r @ [krotov_iteration],
                        iter_seconds := iter_seconds r @ [py_int (toc - tic)],
                        info_vals := info_vals r @ [info],
                        tau_vals := tau_vals r @ [tau],
                        all_pulses := (if store_all_pulses E then all_pulses r @ [optimized]
                                       else all_pulses r),
                        optimized_controls := Some optimized,
                        states := fw_T\<rparr>,
               clock_calls = clock_calls st + 2\<rparr>))))"

text \<open>\<^verbatim>\<open>for krotov_iteration in range(iter_start+1, iter_stop+1)\<close>, over the list of the
  iteration numbers.  Nothing in the loop looks at a convergence predicate.\<close>

fun krotov_loop ::
  "('op, 'c, 's, 'i) env \<Rightarrow> int list \<Rightarrow> ('s, 'i) kstate \<Rightarrow> error + ('s, 'i) kstate"
where
  "krotov_loop E [] st = Inr st"
| "krotov_loop E (k # ks) st = ebind (iteration E k st) (krotov_loop E ks)"

text \<open>Lines 210 to 213.  \<open>optimized_pulses\<close> is unbound if the loop made no pass.
  \<open>result.optimized_controls\<close> is the list object \<open>optimized_pulses\<close>, so the assignment to
  its items replaces the items of that one list by new arrays on the time grid; with
  \<open>store_all_pulses\<close> the last entry of \<open>all_pulses\<close> is that list object, too.\<close>

definition finalize ::
  "('op, 'c, 's, 'i) env \<Rightarrow> ('s, 'i) kstate \<Rightarrow> error + store \<times> ('s, 'i) result"
where
  "finalize E st =
     (case optimized_pulses st of
        None \<Rightarrow> Inl UnboundLocalError
      | Some optimized \<Rightarrow>
          let (controls, s') =
                new_arrays (map (pulse_onto_tlist E) (pulse_values (pulse_store st) optimized))
                  (pulse_store st);
              r = res st
          in
          Inr (s', r\<lparr>optimized_controls := Some controls,
                     all_pulses := (if store_all_pulses E
                                    then butlast (all_pulses r) @ [controls]
                                    else all_pulses r)\<rparr>))"

text \<open>The state after initialisation and loop.\<close>

definition krotov_run ::
  "('op, 'c, 's, 'i) env \<Rightarrow> real list list \<Rightarrow> int \<Rightarrow> int \<Rightarrow> error + ('s, 'i) kstate"
where
  "krotov_run E guess iter_start iter_stop =
     ebind (initialize E guess) (krotov_loop E [iter_start + 1..iter_stop])"

text \<open>\<^verbatim>\<open>optimize_pulses\<close>.  The arguments \<open>sigma\<close> and \<open>state_dependent_constraint\<close> are not
  used by the code and left out; \<open>check_convergence\<close> is not used by the code either and is
  kept as an argument; \<open>storage\<close> and \<open>parallel_map\<close> have their defaults.  The value is the
  final store together with the result object.\<close>

definition optimize_pulses ::
  "('op, 'c, 's, 'i) env \<Rightarrow> real list list \<Rightarrow> int \<Rightarrow> int \<Rightarrow> (('s, 'i) result \<Rightarrow> bool) option \<Rightarrow>
   error + store \<times> ('s, 'i) result"
where
  "optimize_pulses E guess iter_start iter_stop check_convergence =
     ebind (krotov_run E guess iter_start iter_stop) (finalize E)"

subsection \<open>A small scenario\<close>

text \<open>The scenario of the specification's test section, with one-dimensional stand-ins for
  states (complex numbers) and operators (integers): one objective with one controlled
  Hamiltonian term, a grid of five points from 0 to 1, a guess pulse that is constantly 1, a
  propagator that returns the state unchanged, a chi constructor that returns the target
  states, \<open>lambda_a = 1\<close> and a shape that is constantly 1.  The hook returns the iteration
  number, and the clock advances by one second per call.\<close>

definition scenario_objective :: "(int, nat, complex) objective" where
  "scenario_objective =
     \<lparr>H = [Bare 1, Timedep 1 0], c_ops = [], initial_state = 1, target_state = \<i>\<rparr>"

definition scenario_plug :: "(int, nat) hterm \<Rightarrow> (int, real) hterm" where
  "scenario_plug t = (case t of Bare a \<Rightarrow> Bare a | Timedep a c \<Rightarrow> Timedep a 0)"

definition scenario_env :: "(int, nat, complex, int) env" where
  "scenario_env =
     \<lparr>objectives = [scenario_objective],
      tlist = [0, 1 / 4, 1 / 2, 3 / 4, 1],
      tlist_midpoints = [1 / 8, 3 / 8, 5 / 8, 7 / 8],
      pulses_mapping = [[[[1]]]],
      options_list = [\<lparr>lambda_a = 1, shape = (\<lambda>t. 1)\<rparr>],
      propagator = (\<lambda>Hn state dt cs backwards. state),
      chi_constructor = (\<lambda>fw objs taus. map target_state objs),
      info_hook = Some (\<lambda>objs adj bw fw fw_T tau tic toc k. k),
      store_all_pulses = True,
      adjoint = (\<lambda>obj. obj),
      plug_H = (\<lambda>Hs pulses slot n. map scenario_plug Hs),
      plug_c = (\<lambda>t pulses slot n. scenario_plug t),
      pulse_onto_tlist = (\<lambda>xs. xs @ [last xs]),
      op_add = (+),
      op_times = (\<lambda>a s. of_int a * s),
      zero_times = (\<lambda>s. 0),
      overlap = (\<lambda>a b. cnj a * b),
      norm_of = (\<lambda>s. 1),
      state_div = (\<lambda>s r. s / complex_of_real r),
      clock = real\<rparr>"

definition scenario_guess :: "real list list" where
  "scenario_guess = [[1, 1, 1, 1]]"

text \<open>The same scenario with a shape that is constantly 0.\<close>

definition zero_shape_env :: "(int, nat, complex, int) env" where
  "zero_shape_env = scenario_env\<lparr>options_list := [\<lparr>lambda_a = 1, shape = (\<lambda>t. 0)\<rparr>]\<rparr>"

text \<open>A scenario with a dissipation operator that depends on no pulse, a controlled
  Hamiltonian term with the operator 3, and a propagator whose result shows what it was
  called with: backwards, it adds the number of dissipation operators to the state.\<close>

definition dissipative_objective :: "(int, nat, complex) objective" where
  "dissipative_objective =
     \<lparr>H = [Bare 1, Timedep 3 0], c_ops = [Bare 5], initial_state = 1, target_state = \<i>\<rparr>"

definition dissipative_env :: "(int, nat, complex, int) env" where
  "dissipative_env =
     scenario_env\<lparr>objectives := [dissipative_objective],
       pulses_mapping := [[[[1]], [[]]]],
       propagator := (\<lambda>Hn state dt cs backwards.
          if backwards then state + of_nat (length cs) else state)\<rparr>"

text \<open>An objective with three Hamiltonian entries, the second and third controlled, and one
  dissipation operator; the operators are integers.\<close>

definition three_term_objective :: "(int, nat, unit) objective" where
  "three_term_objective =
     \<lparr>H = [Bare 10, Timedep 20 0, Timedep 30 0], c_ops = [Timedep 5 0],
      initial_state = (), target_state = ()\<rparr>"

section \<open>Properties\<close>

subsection \<open>Basic facts\<close>

lemma ebind_Inl [simp]: "ebind (Inl e) f = Inl e"
  by (simp add: ebind_def)

lemma ebind_Inr [simp]: "ebind (Inr x) f = f x"
  by (simp add: ebind_def)

lemma ebind_eq_Inr: "ebind m f = Inr y \<longleftrightarrow> (\<exists>x. m = Inr x \<and> f x = Inr y)"
  by (cases m) simp_all

lemma py_nth_eq_Inr: "py_nth xs n = Inr x \<longleftrightarrow> n < length xs \<and> x = xs ! n"
  by (auto simp: py_nth_def)

lemma py_set_nth_eq_Inr: "py_set_nth xs n v = Inr ys \<longleftrightarrow> n < length xs \<and> ys = xs[n := v]"
  by (auto simp: py_set_nth_def)

lemma emap_Inr:
  "emap f xs = Inr ys \<Longrightarrow> length ys = length xs \<and> (\<forall>i<length xs. f (xs ! i) = Inr (ys ! i))"
proof (induction xs arbitrary: ys)
  case Nil
  then show ?case by simp
next
  case (Cons x xs)
  from Cons.prems obtain y zs where y: "f x = Inr y" and zs: "emap f xs = Inr zs"
    and ys: "ys = y # zs"
    by (auto simp: ebind_eq_Inr)
  from Cons.IH [OF zs] show ?case
    using y ys by (auto simp: nth_Cons split: nat.splits)
qed

lemma initialize_optimized_pulses:
  "initialize E guess = Inr st \<Longrightarrow> optimized_pulses st = None"
  by (auto simp: initialize_def Let_def ebind_eq_Inr split: prod.splits option.splits)

subsection \<open>The store\<close>

lemma new_arrays_spec:
  "new_arrays xss s = (as, s') \<Longrightarrow>
   as = [next_addr s..<next_addr s + length xss] \<and>
   next_addr s' = next_addr s + length xss \<and>
   (\<forall>a<next_addr s. cells s' a = cells s a) \<and>
   map (cells s') as = xss"
proof (induction xss arbitrary: s as s')
  case Nil
  then show ?case by simp
next
  case (Cons xs xss)
  let ?s1 = "s\<lparr>cells := (cells s)(next_addr s := xs), next_addr := Suc (next_addr s)\<rparr>"
  from Cons.prems obtain as' where
    rest: "new_arrays xss ?s1 = (as', s')" and as: "as = next_addr s # as'"
    by (auto simp: new_array_def split: prod.splits)
  have nx1: "next_addr ?s1 = Suc (next_addr s)" by simp
  from Cons.IH [OF rest] have
    as': "as' = [next_addr ?s1..<next_addr ?s1 + length xss]" and
    nx: "next_addr s' = next_addr ?s1 + length xss" and
    old: "\<forall>a<next_addr ?s1. cells s' a = cells ?s1 a" and
    vals: "map (cells s') as' = xss"
    by blast+
  from as as' have 1: "as = [next_addr s..<next_addr s + length (xs # xss)]"
    unfolding nx1 by (simp add: upt_conv_Cons del: upt_Suc)
  from old have "cells s' (next_addr s) = xs" by simp
  with as vals have 2: "map (cells s') as = xs # xss" by simp
  from old have 3: "\<forall>a<next_addr s. cells s' a = cells s a" by simp
  from nx have 4: "next_addr s' = next_addr s + length (xs # xss)" by simp
  from 1 2 3 4 show ?case by blast
qed

lemma deepcopy_spec:
  "deepcopy ps s = (as, s') \<Longrightarrow>
   as = [next_addr s..<next_addr s + length ps] \<and>
   next_addr s' = next_addr s + length ps \<and>
   (\<forall>a<next_addr s. cells s' a = cells s a) \<and>
   map (cells s') as = map (cells s) ps"
  by (auto simp: deepcopy_def dest!: new_arrays_spec)

lemma array_add_at_eq_Inr:
  "array_add_at a n x s = Inr s' \<longleftrightarrow>
     n < length (cells s a) \<and>
     s' = s\<lparr>cells := (cells s)(a := (cells s a)[n := cells s a ! n + x])\<rparr>"
  by (auto simp: array_add_at_def)

lemma initialize_pulses:
  assumes "initialize E guess = Inr st"
  shows "guess_pulses st = [0..<length guess] \<and> next_addr (pulse_store st) = length guess \<and>
    pulse_values (pulse_store st) (guess_pulses st) = guess"
proof -
  obtain ps s0 where na: "new_arrays guess empty_store = (ps, s0)"
    by (cases "new_arrays guess empty_store")
  with assms have "guess_pulses st = ps" "pulse_store st = s0"
    by (auto simp: initialize_def Let_def ebind_eq_Inr split: option.splits)
  with new_arrays_spec [OF na] show ?thesis
    by (auto simp: empty_store_def pulse_values_def)
qed

subsection \<open>Backward propagation\<close>

lemma py_setitem_last:
  "py_setitem (replicate n None) (- 1) v = Inr arr \<longleftrightarrow> 0 < n \<and> arr = (replicate n None)[n - 1 := v]"
  by (auto simp: py_setitem_def nat_diff_distrib' intro: arg_cong)

lemma plug_c_ops_loop:
  "emap (\<lambda>(ic, c_op). ebind (py_nth mapping (Suc ic)) (\<lambda>slot.
            Inr (plug_c E c_op pulses slot n))) (enumerate k cs0) = Inr cs \<longleftrightarrow>
   (\<forall>j<length cs0. Suc (k + j) < length mapping) \<and>
   cs = map (\<lambda>(ic, c_op). plug_c E c_op pulses (mapping ! Suc ic) n) (enumerate k cs0)"
proof (induction cs0 arbitrary: k cs)
  case Nil
  then show ?case by auto
next
  case (Cons c cs0)
  let ?f = "\<lambda>(ic, c_op). ebind (py_nth mapping (Suc ic)) (\<lambda>slot.
            Inr (plug_c E c_op pulses slot n))"
  let ?g = "\<lambda>(ic, c_op). plug_c E c_op pulses (mapping ! Suc ic) n"
  have "emap ?f (enumerate k (c # cs0)) = Inr cs \<longleftrightarrow>
      Suc k < length mapping \<and>
      (\<exists>x. emap ?f (enumerate (Suc k) cs0) = Inr x \<and>
         cs = plug_c E c pulses (mapping ! Suc k) n # x)"
    by (auto simp: ebind_eq_Inr py_nth_eq_Inr)
  also have "\<dots> \<longleftrightarrow> Suc k < length mapping \<and>
      (\<forall>j<length cs0. Suc (Suc k + j) < length mapping) \<and>
      cs = plug_c E c pulses (mapping ! Suc k) n # map ?g (enumerate (Suc k) cs0)"
    unfolding Cons.IH by blast
  also have "\<dots> \<longleftrightarrow> (\<forall>j<length (c # cs0). Suc (k + j) < length mapping) \<and>
      cs = map ?g (enumerate k (c # cs0))"
    by (auto simp: less_Suc_eq_0_disj)
  finally show ?case .
qed

lemma plug_c_ops_eq_Inr:
  "plug_c_ops E obj pulses mapping n = Inr cs \<longleftrightarrow>
   (\<forall>ic<length (c_ops obj). Suc ic < length mapping) \<and>
   cs = map (\<lambda>(ic, c_op). plug_c E c_op pulses (mapping ! (ic + 1)) n)
          (enumerate 0 (c_ops obj))"
  using plug_c_ops_loop [of mapping E pulses n 0 "c_ops obj" cs]
  by (simp add: plug_c_ops_def)

lemma propagation_step_eq_Inr:
  "propagation_step E obj pulses mapping k s b = Inr s' \<longleftrightarrow>
     0 < length mapping \<and> Suc k < length (tlist E) \<and>
     (\<exists>cs. plug_c_ops E obj pulses mapping k = Inr cs \<and>
        s' = propagator E (plug_H E (H obj) pulses (mapping ! 0) k) s
               (tlist E ! Suc k - tlist E ! k) cs b)"
  by (auto simp: propagation_step_def ebind_eq_Inr py_nth_eq_Inr)

lemma backward_loop_spec:
  "backward_loop E obj pulses mapping (rev [0..<m]) state arr = Inr arr' \<Longrightarrow>
   arr ! m = Some state \<Longrightarrow>
   length arr' = length arr \<and> (\<forall>k. m \<le> k \<longrightarrow> arr' ! k = arr ! k) \<and>
   (\<forall>k<m. \<exists>s s'. arr' ! Suc k = Some s \<and>
      propagation_step E obj pulses mapping k s True = Inr s' \<and> arr' ! k = Some s')"
proof (induction m arbitrary: state arr)
  case 0
  then show ?case by simp
next
  case (Suc m)
  from Suc.prems(1) obtain s' where
    step: "propagation_step E obj pulses mapping m state True = Inr s'" and
    m: "m < length arr" and
    rest: "backward_loop E obj pulses mapping (rev [0..<m]) s' (arr[m := Some s']) = Inr arr'"
    by (auto simp: ebind_eq_Inr py_set_nth_eq_Inr)
  from m have "arr[m := Some s'] ! m = Some s'" by simp
  from Suc.IH [OF rest this] have
    len: "length arr' = length arr" and
    keep: "\<forall>k. m \<le> k \<longrightarrow> arr' ! k = arr[m := Some s'] ! k" and
    below: "\<forall>k<m. \<exists>s s'. arr' ! Suc k = Some s \<and>
      propagation_step E obj pulses mapping k s True = Inr s' \<and> arr' ! k = Some s'"
    by simp_all
  from keep m have at_m: "arr' ! m = Some s'" by simp
  from keep have above: "\<forall>k. Suc m \<le> k \<longrightarrow> arr' ! k = arr ! k" by simp
  with Suc.prems(2) have "arr' ! Suc m = Some state" by simp
  with step at_m below have "\<forall>k<Suc m. \<exists>s s'. arr' ! Suc k = Some s \<and>
      propagation_step E obj pulses mapping k s True = Inr s' \<and> arr' ! k = Some s'"
    by (auto simp: less_Suc_eq)
  with len above show ?case by simp
qed

lemma backward_propagation_spec:
  assumes "backward_propagation E i chis adj pulses pm = Inr arr"
  shows "i < length chis \<and> i < length adj \<and> i < length pm \<and> length arr = length (tlist E) \<and>
    0 < length (tlist E) \<and> arr ! (length (tlist E) - 1) = Some (chis ! i) \<and>
    (\<forall>k. Suc k < length (tlist E) \<longrightarrow> (\<exists>s s'. arr ! Suc k = Some s \<and>
       propagation_step E (adj ! i) pulses (pm ! i) k s True = Inr s' \<and> arr ! k = Some s'))"
proof -
  let ?n = "length (tlist E)"
  let ?arr0 = "(replicate ?n None)[?n - 1 := Some (chis ! i)]"
  from assms have i: "i < length chis" "i < length adj" "i < length pm" and n: "0 < ?n" and
    loop: "backward_loop E (adj ! i) pulses (pm ! i) (rev [0..<?n - 1]) (chis ! i) ?arr0 = Inr arr"
    by (auto simp: backward_propagation_def ebind_eq_Inr py_nth_eq_Inr py_setitem_last)
  from n have "?arr0 ! (?n - 1) = Some (chis ! i)" by simp
  from backward_loop_spec [OF loop this] i n show ?thesis
    by (auto simp: less_diff_conv)
qed

subsection \<open>What the derivative routine returns\<close>

lemma item0_eq_Inr: "item0 t = Inr a \<longleftrightarrow> (\<exists>c. t = Timedep a c)"
  by (cases t) auto

lemma add_terms_eq_Inr:
  "add_terms add Hs ham rest m = Inr r \<longleftrightarrow>
     (\<exists>as. list_all2 (\<lambda>j a. \<exists>k c. py_index ham j = Inr k \<and> py_index Hs k = Inr (Timedep a c))
             rest as \<and> r = foldl add m as)"
proof (induction rest arbitrary: m)
  case Nil
  then show ?case by auto
next
  case (Cons j rest)
  show ?case
    apply (auto simp: ebind_eq_Inr item0_eq_Inr Cons.IH list_all2_Cons1)
    subgoal for k a c as by (rule exI [of _ "a # as"]) simp
    done
qed

lemma check_c_ops_eq_Inr:
  "check_c_ops mapping p ics = Inr u \<longleftrightarrow>
     (\<forall>ic\<in>set ics. Suc ic < length mapping \<and> p < length (mapping ! Suc ic) \<and>
        mapping ! Suc ic ! p = [])"
  by (induction ics) (auto simp: ebind_eq_Inr py_nth_eq_Inr)

lemma derivative_wrt_pulse_eq_Inr:
  "derivative_wrt_pulse add obj pulses mapping p = Inr m \<longleftrightarrow>
     0 < length mapping \<and> p < length (mapping ! 0) \<and>
     (if mapping ! 0 ! p = [] then m = Zero
      else \<exists>a0 c0 as.
             py_index (H obj) (mapping ! 0 ! p ! 0) = Inr (Timedep a0 c0) \<and>
             list_all2 (\<lambda>j a. \<exists>k c. py_index (mapping ! 0 ! p) j = Inr k \<and>
                          py_index (H obj) k = Inr (Timedep a c))
               (tl (mapping ! 0 ! p)) as \<and>
             (\<forall>ic<length (c_ops obj). Suc ic < length mapping \<and>
                p < length (mapping ! Suc ic) \<and> mapping ! Suc ic ! p = []) \<and>
             m = Mu (foldl add a0 as))"
proof (cases "0 < length mapping \<and> p < length (mapping ! 0)")
  case False
  then show ?thesis
    by (auto simp: derivative_wrt_pulse_def ebind_eq_Inr py_nth_eq_Inr)
next
  case True
  show ?thesis
  proof (cases "mapping ! 0 ! p = []")
    case e: True
    with True show ?thesis
      by (auto simp: derivative_wrt_pulse_def ebind_eq_Inr py_nth_eq_Inr)
  next
    case ne: False
    then have first: "py_index (mapping ! 0 ! p) 0 = Inr (mapping ! 0 ! p ! 0)"
      by (simp add: py_index_def)
    from True ne first show ?thesis
      by (auto simp: derivative_wrt_pulse_def ebind_eq_Inr py_nth_eq_Inr item0_eq_Inr
          add_terms_eq_Inr check_c_ops_eq_Inr)
  qed
qed

subsection \<open>The nested iteration of the pulse update\<close>

lemma matrix_add_at_eq_Inr:
  "matrix_add_at d p n u = Inr d' \<longleftrightarrow>
     p < length d \<and> n < length (d ! p) \<and> d' = d[p := (d ! p)[n := d ! p ! n + u]]"
  by (auto simp: matrix_add_at_def ebind_eq_Inr py_nth_eq_Inr)

lemma update_term_eq_Inr:
  "update_term E bw fw norms guess n p i = Inr u \<longleftrightarrow>
     i < length (objectives E) \<and> i < length bw \<and> n < length (bw ! i) \<and>
     i < length (pulses_mapping E) \<and> i < length fw \<and> n < length (fw ! i) \<and>
     i < length norms \<and>
     (\<exists>chi m psi. bw ! i ! n = Some chi \<and> fw ! i ! n = Some psi \<and>
        derivative_wrt_pulse (op_add E) (objectives E ! i) guess (pulses_mapping E ! i) p
          = Inr m \<and>
        u = overlap E chi (mu_times E m psi) * complex_of_real (norms ! i))"
  by (cases "bw ! i ! n"; cases "fw ! i ! n")
    (auto simp: update_term_def ebind_eq_Inr py_nth_eq_Inr)

lemma update_term_cong:
  assumes "length fw' = length fw" and "\<forall>i. length (fw' ! i) = length (fw ! i)"
    and "\<forall>i. fw' ! i ! n = fw ! i ! n"
  shows "update_term E bw fw' norms guess n p i = update_term E bw fw norms guess n p i"
  using assms by (simp add: update_term_def py_nth_def)

lemma objectives_loop_spec:
  "objectives_loop E bw fw norms guess n p is d = Inr d' \<Longrightarrow>
   \<exists>us. list_all2 (\<lambda>i u. update_term E bw fw norms guess n p i = Inr u) is us \<and>
        d' = d[p := (d ! p)[n := d ! p ! n + sum_list us]]"
proof (induction "is" arbitrary: d)
  case Nil
  then show ?case by simp
next
  case (Cons i "is")
  from Cons.prems obtain u where
    u: "update_term E bw fw norms guess n p i = Inr u" and
    p: "p < length d" and n: "n < length (d ! p)" and
    rest: "objectives_loop E bw fw norms guess n p is (d[p := (d ! p)[n := d ! p ! n + u]])
             = Inr d'"
    by (auto simp: ebind_eq_Inr matrix_add_at_eq_Inr)
  from Cons.IH [OF rest] obtain us where
    us: "list_all2 (\<lambda>i u. update_term E bw fw norms guess n p i = Inr u) is us" and
    d': "d' = (d[p := (d ! p)[n := d ! p ! n + u]])
              [p := ((d[p := (d ! p)[n := d ! p ! n + u]]) ! p)
                 [n := (d[p := (d ! p)[n := d ! p ! n + u]]) ! p ! n + sum_list us]]"
    by blast
  from d' p n have "d' = d[p := (d ! p)[n := d ! p ! n + sum_list (u # us)]]"
    by (simp add: add.assoc)
  with u us show ?case by (intro exI [of _ "u # us"]) simp
qed

lemma pulses_loop_frame:
  "pulses_loop E bw fw norms guess optimized n t ps sd = Inr sd' \<Longrightarrow>
   next_addr (fst sd') = next_addr (fst sd) \<and>
   (\<forall>a. a \<notin> set optimized \<longrightarrow> cells (fst sd') a = cells (fst sd) a) \<and>
   (\<forall>a. a \<notin> (!) optimized ` set ps \<longrightarrow> cells (fst sd') a = cells (fst sd) a) \<and>
   (\<forall>a. length (cells (fst sd') a) = length (cells (fst sd) a)) \<and>
   (\<forall>a m. m \<noteq> n \<longrightarrow> cells (fst sd') a ! m = cells (fst sd) a ! m) \<and>
   length (snd sd') = length (snd sd) \<and>
   (\<forall>q. length (snd sd' ! q) = length (snd sd ! q)) \<and>
   (\<forall>q m. m \<noteq> n \<longrightarrow> snd sd' ! q ! m = snd sd ! q ! m)"
proof (induction ps arbitrary: sd)
  case Nil
  then show ?case by simp
next
  case (Cons p ps)
  from Cons.prems obtain d1 s1 where
    ol: "objectives_loop E bw fw norms guess n p [0..<length (objectives E)] (snd sd) = Inr d1"
    and p: "p < length optimized"
    and s1: "array_add_at (optimized ! p) n
               (shape (options_list E ! p) t / lambda_a (options_list E ! p) * Im (d1 ! p ! n))
               (fst sd) = Inr s1"
    and rest: "pulses_loop E bw fw norms guess optimized n t ps (s1, d1) = Inr sd'"
    by (auto simp: ebind_eq_Inr py_nth_eq_Inr split: if_splits)
  from objectives_loop_spec [OF ol] obtain us where
    d1: "d1 = (snd sd)[p := (snd sd ! p)[n := snd sd ! p ! n + sum_list us]]" by blast
  have d1_len: "length d1 = length (snd sd)" unfolding d1 by simp
  have d1_rows: "length (d1 ! q) = length (snd sd ! q)" for q
  proof (cases "p < length (snd sd)")
    case True
    then show ?thesis unfolding d1 by (simp add: nth_list_update)
  next
    case False
    then have "d1 = snd sd" unfolding d1 by (simp add: list_update_beyond)
    then show ?thesis by simp
  qed
  have d1_cols: "d1 ! q ! m = snd sd ! q ! m" if "m \<noteq> n" for q m
  proof (cases "p < length (snd sd)")
    case True
    with that show ?thesis unfolding d1 by (simp add: nth_list_update)
  next
    case False
    then have "d1 = snd sd" unfolding d1 by (simp add: list_update_beyond)
    then show ?thesis by simp
  qed
  from s1 have s1': "s1 = (fst sd)\<lparr>cells := (cells (fst sd))
      (optimized ! p := (cells (fst sd) (optimized ! p))
         [n := cells (fst sd) (optimized ! p) ! n +
            shape (options_list E ! p) t / lambda_a (options_list E ! p) * Im (d1 ! p ! n)])\<rparr>"
    by (simp add: array_add_at_eq_Inr)
  from p have s1_frame: "next_addr s1 = next_addr (fst sd)"
    "\<forall>a. a \<notin> set optimized \<longrightarrow> cells s1 a = cells (fst sd) a"
    "\<forall>a. a \<noteq> optimized ! p \<longrightarrow> cells s1 a = cells (fst sd) a"
    "\<forall>a. length (cells s1 a) = length (cells (fst sd) a)"
    "\<forall>a m. m \<noteq> n \<longrightarrow> cells s1 a ! m = cells (fst sd) a ! m"
    unfolding s1' by auto
  from Cons.IH [OF rest] d1_len d1_rows d1_cols s1_frame show ?case by simp
qed

lemma pulses_loop_update:
  "pulses_loop E bw fw norms guess optimized n t ps sd = Inr sd' \<Longrightarrow>
   distinct ps \<Longrightarrow> distinct optimized \<Longrightarrow> \<forall>p\<in>set ps. snd sd ! p ! n = 0 \<Longrightarrow>
   \<forall>p\<in>set ps.
     p < length optimized \<and> p < length (options_list E) \<and>
     lambda_a (options_list E ! p) \<noteq> 0 \<and> n < length (cells (fst sd) (optimized ! p)) \<and>
     (\<exists>us. list_all2 (\<lambda>i u. update_term E bw fw norms guess n p i = Inr u)
             [0..<length (objectives E)] us \<and>
           cells (fst sd') (optimized ! p) ! n =
             cells (fst sd) (optimized ! p) ! n +
             shape (options_list E ! p) t / lambda_a (options_list E ! p) * Im (sum_list us))"
proof (induction ps arbitrary: sd)
  case Nil
  then show ?case by simp
next
  case (Cons p ps)
  let ?opts = "options_list E ! p"
  from Cons.prems(1) obtain d1 s1 where
    ol: "objectives_loop E bw fw norms guess n p [0..<length (objectives E)] (snd sd) = Inr d1"
    and po: "p < length (options_list E)" and la: "lambda_a ?opts \<noteq> 0"
    and pd: "p < length d1" and nd: "n < length (d1 ! p)"
    and p: "p < length optimized"
    and s1: "array_add_at (optimized ! p) n
               (shape ?opts t / lambda_a ?opts * Im (d1 ! p ! n)) (fst sd) = Inr s1"
    and rest: "pulses_loop E bw fw norms guess optimized n t ps (s1, d1) = Inr sd'"
    by (auto simp: ebind_eq_Inr py_nth_eq_Inr split: if_splits)
  from objectives_loop_spec [OF ol] obtain us where
    us: "list_all2 (\<lambda>i u. update_term E bw fw norms guess n p i = Inr u)
           [0..<length (objectives E)] us" and
    d1: "d1 = (snd sd)[p := (snd sd ! p)[n := snd sd ! p ! n + sum_list us]]" by blast
  from pd nd Cons.prems(4) have acc: "d1 ! p ! n = sum_list us"
    unfolding d1 by simp
  from Cons.prems(2) have p_notin: "p \<notin> set ps" and dps: "distinct ps" by simp_all
  have zero: "\<forall>q\<in>set ps. snd (s1, d1) ! q ! n = 0"
  proof
    fix q assume q: "q \<in> set ps"
    with p_notin have "p \<noteq> q" by auto
    with q Cons.prems(4) show "snd (s1, d1) ! q ! n = 0" unfolding d1 by simp
  qed
  from s1 have nc: "n < length (cells (fst sd) (optimized ! p))" and
    s1': "s1 = (fst sd)\<lparr>cells := (cells (fst sd))
      (optimized ! p := (cells (fst sd) (optimized ! p))
         [n := cells (fst sd) (optimized ! p) ! n +
            shape ?opts t / lambda_a ?opts * Im (d1 ! p ! n)])\<rparr>"
    by (simp_all add: array_add_at_eq_Inr)
  note ih = Cons.IH [OF rest dps Cons.prems(3) zero]
  have other: "cells s1 (optimized ! q) = cells (fst sd) (optimized ! q)"
    if "q \<in> set ps" for q
  proof -
    from ih that have "q < length optimized" by simp
    with p p_notin that Cons.prems(3) have "optimized ! q \<noteq> optimized ! p"
      by (auto simp: nth_eq_iff_index_eq)
    then show ?thesis unfolding s1' by simp
  qed
  have head: "cells (fst sd') (optimized ! p) ! n =
      cells (fst sd) (optimized ! p) ! n + shape ?opts t / lambda_a ?opts * Im (sum_list us)"
  proof -
    have "optimized ! p \<notin> (!) optimized ` set ps"
    proof
      assume "optimized ! p \<in> (!) optimized ` set ps"
      then obtain q where q: "q \<in> set ps" and eq: "optimized ! p = optimized ! q" by auto
      from ih q have "q < length optimized" by simp
      with p eq Cons.prems(3) have "p = q" by (simp add: nth_eq_iff_index_eq)
      with q p_notin show False by simp
    qed
    with pulses_loop_frame [OF rest]
    have "cells (fst sd') (optimized ! p) = cells s1 (optimized ! p)" by simp
    then show ?thesis unfolding s1' using nc acc by simp
  qed
  from ih other have "\<forall>q\<in>set ps.
     q < length optimized \<and> q < length (options_list E) \<and>
     lambda_a (options_list E ! q) \<noteq> 0 \<and> n < length (cells (fst sd) (optimized ! q)) \<and>
     (\<exists>us. list_all2 (\<lambda>i u. update_term E bw fw norms guess n q i = Inr u)
             [0..<length (objectives E)] us \<and>
           cells (fst sd') (optimized ! q) ! n =
             cells (fst sd) (optimized ! q) ! n +
             shape (options_list E ! q) t / lambda_a (options_list E ! q) * Im (sum_list us))"
    by simp
  with p po la nc us head show ?case by auto
qed

lemma store_states_frame:
  "store_states fw_states k is fws = Inr fws' \<Longrightarrow>
   length fws' = length fws \<and> (\<forall>i. length (fws' ! i) = length (fws ! i)) \<and>
   (\<forall>i m. m \<noteq> k \<longrightarrow> fws' ! i ! m = fws ! i ! m)"
proof (induction "is" arbitrary: fws)
  case Nil
  then show ?case by simp
next
  case (Cons i "is")
  from Cons.prems obtain st where i: "i < length fws" and
    rest: "store_states fw_states k is (fws[i := (fws ! i)[k := Some st]]) = Inr fws'"
    by (auto simp: ebind_eq_Inr py_nth_eq_Inr py_set_nth_eq_Inr)
  from Cons.IH [OF rest] i show ?case
    by (auto simp: nth_list_update)
qed

lemma time_loop_frame:
  "time_loop E bw norms guess optimized (enumerate k ts) sw = Inr sw' \<Longrightarrow>
   next_addr (sw_store sw') = next_addr (sw_store sw) \<and>
   (\<forall>a. a \<notin> set optimized \<longrightarrow> cells (sw_store sw') a = cells (sw_store sw) a) \<and>
   (\<forall>a. length (cells (sw_store sw') a) = length (cells (sw_store sw) a)) \<and>
   (\<forall>a m. m < k \<or> k + length ts \<le> m \<longrightarrow>
      cells (sw_store sw') a ! m = cells (sw_store sw) a ! m) \<and>
   length (sw_forward_states sw') = length (sw_forward_states sw) \<and>
   (\<forall>i. length (sw_forward_states sw' ! i) = length (sw_forward_states sw ! i)) \<and>
   (\<forall>i m. m \<le> k \<longrightarrow> sw_forward_states sw' ! i ! m = sw_forward_states sw ! i ! m)"
proof (induction ts arbitrary: k sw)
  case Nil
  then show ?case by simp
next
  case (Cons t ts)
  from Cons.prems obtain sd fw_states fws where
    pl: "pulses_loop E bw (sw_forward_states sw) norms guess optimized k t [0..<length guess]
           (sw_store sw, sw_delta_eps sw) = Inr sd" and
    ss: "store_states fw_states (k + 1) [0..<length (objectives E)] (sw_forward_states sw)
           = Inr fws" and
    rest: "time_loop E bw norms guess optimized (enumerate (Suc k) ts)
             \<lparr>sw_store = fst sd, sw_forward_states = fws, sw_delta_eps = snd sd,
              sw_fw_states = Some fw_states\<rparr> = Inr sw'"
    by (auto simp: ebind_eq_Inr)
  note f1 = pulses_loop_frame [OF pl]
  note f2 = store_states_frame [OF ss]
  note ih = Cons.IH [OF rest]
  from f1 f2 ih show ?case by simp
qed

lemma time_loop_update:
  "time_loop E bw norms guess optimized (enumerate k ts) sw = Inr sw' \<Longrightarrow>
   distinct optimized \<Longrightarrow>
   \<forall>p<length guess. \<forall>m. k \<le> m \<and> m < k + length ts \<longrightarrow> sw_delta_eps sw ! p ! m = 0 \<Longrightarrow>
   \<forall>p<length guess. \<forall>m. k \<le> m \<and> m < k + length ts \<longrightarrow>
     p < length optimized \<and> p < length (options_list E) \<and>
     lambda_a (options_list E ! p) \<noteq> 0 \<and>
     m < length (cells (sw_store sw) (optimized ! p)) \<and>
     (\<exists>us. list_all2
             (\<lambda>i u. update_term E bw (sw_forward_states sw') norms guess m p i = Inr u)
             [0..<length (objectives E)] us \<and>
           cells (sw_store sw') (optimized ! p) ! m =
             cells (sw_store sw) (optimized ! p) ! m +
             shape (options_list E ! p) (ts ! (m - k)) / lambda_a (options_list E ! p) *
               Im (sum_list us))"
proof (induction ts arbitrary: k sw)
  case Nil
  then show ?case by simp
next
  case (Cons t ts)
  from Cons.prems(1) obtain sd fw_states fws where
    pl: "pulses_loop E bw (sw_forward_states sw) norms guess optimized k t [0..<length guess]
           (sw_store sw, sw_delta_eps sw) = Inr sd" and
    ss: "store_states fw_states (k + 1) [0..<length (objectives E)] (sw_forward_states sw)
           = Inr fws" and
    rest: "time_loop E bw norms guess optimized (enumerate (Suc k) ts)
             \<lparr>sw_store = fst sd, sw_forward_states = fws, sw_delta_eps = snd sd,
              sw_fw_states = Some fw_states\<rparr> = Inr sw'"
    by (auto simp: ebind_eq_Inr)
  let ?sw1 = "\<lparr>sw_store = fst sd, sw_forward_states = fws, sw_delta_eps = snd sd,
              sw_fw_states = Some fw_states\<rparr>"
  note f1 = pulses_loop_frame [OF pl]
  note f2 = store_states_frame [OF ss]
  note f3 = time_loop_frame [OF rest]
  have zero1: "\<forall>p<length guess. \<forall>m. Suc k \<le> m \<and> m < Suc k + length ts \<longrightarrow>
      sw_delta_eps ?sw1 ! p ! m = 0"
    using f1 Cons.prems(3) by simp
  note ih = Cons.IH [OF rest Cons.prems(2) zero1]
  have zero0: "\<forall>p\<in>set [0..<length guess]. snd (sw_store sw, sw_delta_eps sw) ! p ! k = 0"
    using Cons.prems(3) by simp
  have "distinct [0..<length guess]" by simp
  note up = pulses_loop_update [OF pl this Cons.prems(2) zero0]
  have fw_same: "update_term E bw (sw_forward_states sw') norms guess k p i =
      update_term E bw (sw_forward_states sw) norms guess k p i" for p i
    by (rule update_term_cong) (use f2 f3 in simp_all)
  show ?case
  proof (intro allI impI)
    fix p m
    assume p: "p < length guess" and m: "k \<le> m \<and> m < k + length (t # ts)"
    show "p < length optimized \<and> p < length (options_list E) \<and>
     lambda_a (options_list E ! p) \<noteq> 0 \<and>
     m < length (cells (sw_store sw) (optimized ! p)) \<and>
     (\<exists>us. list_all2
             (\<lambda>i u. update_term E bw (sw_forward_states sw') norms guess m p i = Inr u)
             [0..<length (objectives E)] us \<and>
           cells (sw_store sw') (optimized ! p) ! m =
             cells (sw_store sw) (optimized ! p) ! m +
             shape (options_list E ! p) ((t # ts) ! (m - k)) / lambda_a (options_list E ! p) *
               Im (sum_list us))"
    proof (cases "m = k")
      case True
      from f3 have "cells (sw_store sw') (optimized ! p) ! k = cells (fst sd) (optimized ! p) ! k"
        by simp
      moreover from p have "p \<in> set [0..<length guess]" by simp
      ultimately show ?thesis using up [rule_format, OF \<open>p \<in> set [0..<length guess]\<close>] True
        by (simp add: fw_same)
    next
      case False
      with m have m': "Suc k \<le> m \<and> m < Suc k + length ts" by simp
      from False m have "m - k = Suc (m - Suc k)" by arith
      then have nth: "(t # ts) ! (m - k) = ts ! (m - Suc k)" by simp
      from f1 False have "cells (fst sd) (optimized ! p) ! m = cells (sw_store sw) (optimized ! p) ! m"
        "length (cells (fst sd) (optimized ! p)) = length (cells (sw_store sw) (optimized ! p))"
        by simp_all
      with ih [rule_format, OF p m'] nth show ?thesis by simp
    qed
  qed
qed

subsection \<open>One pass of the loop\<close>

lemma iteration_Inr:
  assumes "iteration E k st = Inr st'"
  obtains bwd fwd0 optimized s1 sw fw_T where
    "emap (\<lambda>i. backward_propagation E i
        (map (\<lambda>(chi, nrm). state_div E chi nrm)
           (zip (chi_constructor E (fw_states_T st) (objectives E) (tau_vals (res st)))
              (map (norm_of E)
                 (chi_constructor E (fw_states_T st) (objectives E) (tau_vals (res st))))))
        (map (adjoint E) (objectives E))
        (pulse_values (pulse_store st) (guess_pulses st)) (pulses_mapping E))
      [0..<length (objectives E)] = Inr bwd"
    "emap (\<lambda>obj. py_setitem (replicate (length (tlist E)) None) 0 (Some (initial_state obj)))
      (objectives E) = Inr fwd0"
    "deepcopy (guess_pulses st) (pulse_store st) = (optimized, s1)"
    "time_loop E bwd
       (map (norm_of E) (chi_constructor E (fw_states_T st) (objectives E) (tau_vals (res st))))
       (guess_pulses st) optimized (enumerate 0 (tlist_midpoints E))
       \<lparr>sw_store = s1, sw_forward_states = fwd0,
        sw_delta_eps = replicate (length (guess_pulses st))
                         (replicate (length (tlist_midpoints E)) 0),
        sw_fw_states = None\<rparr> = Inr sw"
    "sw_fw_states sw = Some fw_T"
    "pulse_store st' = sw_store sw"
    "guess_pulses st' = optimized"
    "optimized_pulses st' = Some optimized"
    "forward_states st' = sw_forward_states sw"
    "backward_states st' = Some bwd"
    "fw_states_T st' = fw_T"
proof -
  obtain optimized s1 where dc: "deepcopy (guess_pulses st) (pulse_store st) = (optimized, s1)"
    by (cases "deepcopy (guess_pulses st) (pulse_store st)")
  from assms dc have "\<exists>bwd fwd0 sw fw_T.
    emap (\<lambda>i. backward_propagation E i
        (map (\<lambda>(chi, nrm). state_div E chi nrm)
           (zip (chi_constructor E (fw_states_T st) (objectives E) (tau_vals (res st)))
              (map (norm_of E)
                 (chi_constructor E (fw_states_T st) (objectives E) (tau_vals (res st))))))
        (map (adjoint E) (objectives E))
        (pulse_values (pulse_store st) (guess_pulses st)) (pulses_mapping E))
      [0..<length (objectives E)] = Inr bwd \<and>
    emap (\<lambda>obj. py_setitem (replicate (length (tlist E)) None) 0 (Some (initial_state obj)))
      (objectives E) = Inr fwd0 \<and>
    time_loop E bwd
       (map (norm_of E) (chi_constructor E (fw_states_T st) (objectives E) (tau_vals (res st))))
       (guess_pulses st) optimized (enumerate 0 (tlist_midpoints E))
       \<lparr>sw_store = s1, sw_forward_states = fwd0,
        sw_delta_eps = replicate (length (guess_pulses st))
                         (replicate (length (tlist_midpoints E)) 0),
        sw_fw_states = None\<rparr> = Inr sw \<and>
    sw_fw_states sw = Some fw_T \<and>
    pulse_store st' = sw_store sw \<and>
    guess_pulses st' = optimized \<and>
    optimized_pulses st' = Some optimized \<and>
    forward_states st' = sw_forward_states sw \<and>
    backward_states st' = Some bwd \<and>
    fw_states_T st' = fw_T"
    apply (clarsimp simp: iteration_def Let_def ebind_eq_Inr)
    subgoal for bwd fwd0 sw by (cases "sw_fw_states sw") (auto simp: Let_def)
    done
  with that dc show thesis by blast
qed

lemma iteration_optimized_pulses:
  "iteration E k st = Inr st' \<Longrightarrow> optimized_pulses st' = Some (guess_pulses st')"
  by (erule iteration_Inr) simp

lemma iteration_allocated:
  assumes "iteration E k st = Inr st'"
  shows "distinct (guess_pulses st') \<and>
    (\<forall>a\<in>set (guess_pulses st'). a < next_addr (pulse_store st')) \<and>
    length (guess_pulses st') = length (guess_pulses st)"
proof -
  from assms(1) obtain bw norms fwd0 d0 optimized s1 sw where
    dc: "deepcopy (guess_pulses st) (pulse_store st) = (optimized, s1)" and
    tl: "time_loop E bw norms (guess_pulses st) optimized (enumerate 0 (tlist_midpoints E))
       \<lparr>sw_store = s1, sw_forward_states = fwd0, sw_delta_eps = d0, sw_fw_states = None\<rparr>
       = Inr sw" and
    st': "pulse_store st' = sw_store sw" "guess_pulses st' = optimized"
    by (rule iteration_Inr)
  from deepcopy_spec [OF dc] time_loop_frame [OF tl] st' show ?thesis by simp
qed

lemma iteration_zero_shape:
  assumes "iteration E k st = Inr st'"
    and "\<forall>p<length (options_list E). \<forall>t\<in>set (tlist_midpoints E). shape (options_list E ! p) t = 0"
  shows "pulse_values (pulse_store st') (guess_pulses st') =
         pulse_values (pulse_store st) (guess_pulses st)"
proof -
  let ?M = "length (tlist_midpoints E)"
  from assms(1) obtain bw norms fwd0 optimized s1 sw where
    dc: "deepcopy (guess_pulses st) (pulse_store st) = (optimized, s1)" and
    tl: "time_loop E bw norms (guess_pulses st) optimized (enumerate 0 (tlist_midpoints E))
       \<lparr>sw_store = s1, sw_forward_states = fwd0,
        sw_delta_eps = replicate (length (guess_pulses st)) (replicate ?M 0),
        sw_fw_states = None\<rparr> = Inr sw" and
    st': "pulse_store st' = sw_store sw" "guess_pulses st' = optimized"
    by (rule iteration_Inr)
  note d = deepcopy_spec [OF dc]
  note f = time_loop_frame [OF tl]
  from d have dist: "distinct optimized" and len: "length optimized = length (guess_pulses st)"
    by simp_all
  have zero: "\<forall>p<length (guess_pulses st). \<forall>m. 0 \<le> m \<and> m < 0 + ?M \<longrightarrow>
      sw_delta_eps \<lparr>sw_store = s1, sw_forward_states = fwd0,
        sw_delta_eps = replicate (length (guess_pulses st)) (replicate ?M 0),
        sw_fw_states = None\<rparr> ! p ! m = 0"
    by simp
  note up = time_loop_update [OF tl dist zero, rule_format]
  have same: "cells (sw_store sw) (optimized ! p) = cells s1 (optimized ! p)"
    if p: "p < length (guess_pulses st)" for p
  proof (rule nth_equalityI)
    from f show "length (cells (sw_store sw) (optimized ! p)) = length (cells s1 (optimized ! p))"
      by simp
  next
    fix m assume "m < length (cells (sw_store sw) (optimized ! p))"
    show "cells (sw_store sw) (optimized ! p) ! m = cells s1 (optimized ! p) ! m"
    proof (cases "m < ?M")
      case True
      then have m: "0 \<le> m \<and> m < 0 + ?M" by simp
      from True have "tlist_midpoints E ! m \<in> set (tlist_midpoints E)" by simp
      with assms(2) up [OF p m] have "shape (options_list E ! p) (tlist_midpoints E ! m) = 0"
        by simp
      with up [OF p m] show ?thesis by auto
    next
      case False
      with f show ?thesis by simp
    qed
  qed
  have "map (cells (sw_store sw)) optimized = map (cells s1) optimized"
    by (rule nth_equalityI) (use same len in simp_all)
  moreover from d have "map (cells s1) optimized = map (cells (pulse_store st)) (guess_pulses st)"
    by blast
  ultimately show ?thesis using st' by (simp add: pulse_values_def)
qed

text \<open>Every state that the driver reaches holds distinct, allocated guess pulse arrays, so
  the copy of a list of pulses never has to share arrays.\<close>

lemma krotov_loop_allocated:
  "krotov_loop E ks st = Inr st' \<Longrightarrow>
   distinct (guess_pulses st) \<and> (\<forall>a\<in>set (guess_pulses st). a < next_addr (pulse_store st)) \<Longrightarrow>
   distinct (guess_pulses st') \<and> (\<forall>a\<in>set (guess_pulses st'). a < next_addr (pulse_store st'))"
proof (induction ks arbitrary: st)
  case Nil
  then show ?case by simp
next
  case (Cons k ks)
  from Cons.prems(1) obtain st1 where it: "iteration E k st = Inr st1" and
    rest: "krotov_loop E ks st1 = Inr st'"
    by (auto simp: ebind_eq_Inr)
  from iteration_allocated [OF it] Cons.IH [OF rest] show ?case by simp
qed

lemma krotov_run_allocated:
  assumes "krotov_run E guess iter_start iter_stop = Inr st"
  shows "distinct (guess_pulses st) \<and> (\<forall>a\<in>set (guess_pulses st). a < next_addr (pulse_store st))"
proof -
  from assms obtain st0 where init: "initialize E guess = Inr st0" and
    loop: "krotov_loop E [iter_start + 1..iter_stop] st0 = Inr st"
    by (auto simp: krotov_run_def ebind_eq_Inr)
  from initialize_pulses [OF init] have
    "distinct (guess_pulses st0) \<and> (\<forall>a\<in>set (guess_pulses st0). a < next_addr (pulse_store st0))"
    by simp
  with krotov_loop_allocated [OF loop] show ?thesis by simp
qed

lemma krotov_loop_zero_shape:
  "krotov_loop E ks st = Inr st' \<Longrightarrow>
   \<forall>p<length (options_list E). \<forall>t\<in>set (tlist_midpoints E). shape (options_list E ! p) t = 0 \<Longrightarrow>
   pulse_values (pulse_store st') (guess_pulses st') =
   pulse_values (pulse_store st) (guess_pulses st)"
proof (induction ks arbitrary: st)
  case Nil
  then show ?case by simp
next
  case (Cons k ks)
  from Cons.prems(1) obtain st1 where it: "iteration E k st = Inr st1" and
    rest: "krotov_loop E ks st1 = Inr st'"
    by (auto simp: ebind_eq_Inr)
  from iteration_zero_shape [OF it Cons.prems(2)] Cons.IH [OF rest Cons.prems(2)]
  show ?case by simp
qed

lemma krotov_loop_optimized_pulses:
  "krotov_loop E ks st = Inr st' \<Longrightarrow>
   optimized_pulses st = None \<or> optimized_pulses st = Some (guess_pulses st) \<Longrightarrow>
   optimized_pulses st' = None \<or> optimized_pulses st' = Some (guess_pulses st')"
proof (induction ks arbitrary: st)
  case Nil
  then show ?case by simp
next
  case (Cons k ks)
  from Cons.prems(1) obtain st1 where it: "iteration E k st = Inr st1" and
    rest: "krotov_loop E ks st1 = Inr st'"
    by (auto simp: ebind_eq_Inr)
  from iteration_optimized_pulses [OF it] Cons.IH [OF rest] show ?case by simp
qed

lemma finalize_Inr:
  assumes "finalize E st = Inr (s, r)"
  shows "\<exists>ps cs. optimized_pulses st = Some ps \<and> optimized_controls r = Some cs \<and>
    pulse_values s cs = map (pulse_onto_tlist E) (pulse_values (pulse_store st) ps)"
proof -
  from assms obtain ps where ps: "optimized_pulses st = Some ps"
    by (cases "optimized_pulses st") (auto simp: finalize_def)
  obtain cs s' where na:
    "new_arrays (map (pulse_onto_tlist E) (pulse_values (pulse_store st) ps)) (pulse_store st)
       = (cs, s')"
    by (cases "new_arrays (map (pulse_onto_tlist E) (pulse_values (pulse_store st) ps))
                 (pulse_store st)")
  with assms ps have "s = s'" "optimized_controls r = Some cs"
    by (auto simp: finalize_def Let_def)
  with new_arrays_spec [OF na] ps show ?thesis
    by (auto simp: pulse_values_def)
qed

lemma scenario_first_pass:
  "\<exists>st st'. initialize scenario_env scenario_guess = Inr st \<and>
     iteration scenario_env 1 st = Inr st'"
proof -
  have a: "\<not> isl (initialize scenario_env scenario_guess)" by code_simp
  have b: "\<not> isl (iteration scenario_env 1 (projr (initialize scenario_env scenario_guess)))"
    by code_simp
  from a obtain st where st: "initialize scenario_env scenario_guess = Inr st"
    by (cases "initialize scenario_env scenario_guess") auto
  with b obtain st' where "iteration scenario_env 1 st = Inr st'"
    by (cases "iteration scenario_env 1 st") auto
  with st show ?thesis by blast
qed

lemma dissipative_first_pass:
  "\<exists>st st'. initialize dissipative_env scenario_guess = Inr st \<and>
     iteration dissipative_env 1 st = Inr st'"
proof -
  have a: "\<not> isl (initialize dissipative_env scenario_guess)" by code_simp
  have b: "\<not> isl (iteration dissipative_env 1 (projr (initialize dissipative_env scenario_guess)))"
    by code_simp
  from a obtain st where st: "initialize dissipative_env scenario_guess = Inr st"
    by (cases "initialize dissipative_env scenario_guess") auto
  with b obtain st' where "iteration dissipative_env 1 st = Inr st'"
    by (cases "iteration dissipative_env 1 st") auto
  with st show ?thesis by blast
qed

subsection \<open>The backward pass\<close>

text \<open>
  C9: in each iteration, every boundary costate that the chi constructor returns is divided
  by its own norm, taken once before the backward propagation.  The backward propagation of
  objective \<open>i\<close> stores that normalised costate at the last time index, and the state at
  every earlier index \<open>n\<close> is the propagator's result for the state at index \<open>n + 1\<close>, called
  with the Hamiltonian and every dissipation operator of the adjoint objective at the current
  (guess) pulse values of interval \<open>n\<close>, the step \<open>tlist[n+1] - tlist[n]\<close> and
  \<open>backwards = True\<close>.
\<close>

theorem backward_pass_normalised:
  assumes "iteration E k st = Inr st'" and "i < length (objectives E)"
  shows "\<exists>bw. backward_states st' = Some bw \<and> length bw = length (objectives E) \<and>
     length (bw ! i) = length (tlist E) \<and>
     (let chis = chi_constructor E (fw_states_T st) (objectives E) (tau_vals (res st));
          obj = adjoint E (objectives E ! i);
          pulses = map (cells (pulse_store st)) (guess_pulses st);
          mapping = pulses_mapping E ! i
      in i < length chis \<and>
         bw ! i ! (length (tlist E) - 1) = Some (state_div E (chis ! i) (norm_of E (chis ! i))) \<and>
         (\<forall>n. Suc n < length (tlist E) \<longrightarrow>
            (\<forall>ic<length (c_ops obj). Suc ic < length mapping) \<and>
            (\<exists>s. bw ! i ! Suc n = Some s \<and>
               bw ! i ! n =
                 Some (propagator E (plug_H E (H obj) pulses (mapping ! 0) n) s
                         (tlist E ! Suc n - tlist E ! n)
                         (map (\<lambda>(ic, c_op). plug_c E c_op pulses (mapping ! (ic + 1)) n)
                            (enumerate 0 (c_ops obj)))
                         True))))"
proof -
  let ?chis = "chi_constructor E (fw_states_T st) (objectives E) (tau_vals (res st))"
  let ?chi_states = "map (\<lambda>(chi, nrm). state_div E chi nrm) (zip ?chis (map (norm_of E) ?chis))"
  from assms(1) obtain bw where
    bw: "emap (\<lambda>i. backward_propagation E i ?chi_states (map (adjoint E) (objectives E))
           (pulse_values (pulse_store st) (guess_pulses st)) (pulses_mapping E))
         [0..<length (objectives E)] = Inr bw" and
    st': "backward_states st' = Some bw"
    by (rule iteration_Inr)
  from emap_Inr [OF bw] assms(2) have len: "length bw = length (objectives E)" and
    bp: "backward_propagation E i ?chi_states (map (adjoint E) (objectives E))
           (pulse_values (pulse_store st) (guess_pulses st)) (pulses_mapping E) = Inr (bw ! i)"
    by auto
  note spec = backward_propagation_spec [OF bp]
  from spec have i: "i < length ?chis" by simp
  then have chi: "?chi_states ! i = state_div E (?chis ! i) (norm_of E (?chis ! i))" by simp
  from spec assms(2) i chi st' len show ?thesis
    unfolding Let_def propagation_step_eq_Inr plug_c_ops_eq_Inr pulse_values_def
    by (auto simp del: map_map)
qed

theorem backward_pass_normalised_witness:
  "\<exists>st st' bw. initialize dissipative_env scenario_guess = Inr st \<and>
     iteration dissipative_env 1 st = Inr st' \<and> (0::nat) < length (objectives dissipative_env) \<and>
     backward_states st' = Some bw \<and> length (bw ! 0) = 5 \<and> bw ! 0 ! 4 = Some \<i> \<and>
     bw ! 0 ! 3 = Some (\<i> + 1)"
proof -
  from dissipative_first_pass obtain st st' where
    st: "initialize dissipative_env scenario_guess = Inr st" and
    it: "iteration dissipative_env 1 st = Inr st'" by blast
  have i: "(0::nat) < length (objectives dissipative_env)"
    by (simp add: dissipative_env_def scenario_env_def)
  let ?E = dissipative_env
  let ?chis = "chi_constructor ?E (fw_states_T st) (objectives ?E) (tau_vals (res st))"
  let ?obj = "adjoint ?E (objectives ?E ! 0)"
  let ?pulses = "map (cells (pulse_store st)) (guess_pulses st)"
  let ?mapping = "pulses_mapping ?E ! 0"
  from backward_pass_normalised [OF it i] obtain bw where
    bw: "backward_states st' = Some bw" and
    len: "length (bw ! 0) = length (tlist ?E)" and
    last: "bw ! 0 ! (length (tlist ?E) - 1) =
      Some (state_div ?E (?chis ! 0) (norm_of ?E (?chis ! 0)))" and
    step: "\<forall>n. Suc n < length (tlist ?E) \<longrightarrow>
            (\<exists>s. bw ! 0 ! Suc n = Some s \<and>
               bw ! 0 ! n =
                 Some (propagator ?E (plug_H ?E (H ?obj) ?pulses (?mapping ! 0) n) s
                         (tlist ?E ! Suc n - tlist ?E ! n)
                         (map (\<lambda>(ic, c_op). plug_c ?E c_op ?pulses (?mapping ! (ic + 1)) n)
                            (enumerate 0 (c_ops ?obj)))
                         True))"
    unfolding Let_def by blast
  from len have l5: "length (bw ! 0) = 5" by (simp add: dissipative_env_def scenario_env_def)
  from last have b4: "bw ! 0 ! 4 = Some \<i>"
    by (simp add: dissipative_env_def scenario_env_def dissipative_objective_def
        eval_nat_numeral)
  have "Suc 3 < length (tlist ?E)" by (simp add: dissipative_env_def scenario_env_def)
  with step obtain s where "bw ! 0 ! Suc 3 = Some s" and
    "bw ! 0 ! 3 =
       Some (propagator ?E (plug_H ?E (H ?obj) ?pulses (?mapping ! 0) 3) s
               (tlist ?E ! Suc 3 - tlist ?E ! 3)
               (map (\<lambda>(ic, c_op). plug_c ?E c_op ?pulses (?mapping ! (ic + 1)) 3)
                  (enumerate 0 (c_ops ?obj)))
               True)"
    by blast
  with b4 have b3: "bw ! 0 ! 3 = Some (\<i> + 1)"
    by (simp add: dissipative_env_def scenario_env_def dissipative_objective_def
        eval_nat_numeral)
  from st it i bw l5 b4 b3 show ?thesis by blast
qed

subsection \<open>The pulse update\<close>

lemma pulse_update_terms:
  assumes "iteration E k st = Inr st'" and "p < length (guess_pulses st)"
    and "n < length (tlist_midpoints E)"
  shows "\<exists>bw us. backward_states st' = Some bw \<and> length us = length (objectives E) \<and>
     (\<forall>i<length (objectives E). \<exists>chi m psi.
        bw ! i ! n = Some chi \<and> forward_states st' ! i ! n = Some psi \<and>
        derivative_wrt_pulse (op_add E) (objectives E ! i) (guess_pulses st)
          (pulses_mapping E ! i) p = Inr m \<and>
        us ! i = overlap E chi (mu_times E m psi) *
          complex_of_real (norm_of E
            (chi_constructor E (fw_states_T st) (objectives E) (tau_vals (res st)) ! i))) \<and>
     lambda_a (options_list E ! p) \<noteq> 0 \<and>
     cells (pulse_store st') (guess_pulses st' ! p) ! n =
       cells (pulse_store st) (guess_pulses st ! p) ! n +
       shape (options_list E ! p) (tlist_midpoints E ! n) / lambda_a (options_list E ! p) *
         Im (sum_list us)"
proof -
  let ?chis = "chi_constructor E (fw_states_T st) (objectives E) (tau_vals (res st))"
  let ?norms = "map (norm_of E) ?chis"
  let ?d0 = "replicate (length (guess_pulses st))
               (replicate (length (tlist_midpoints E)) (0::complex))"
  from assms(1) obtain bw fwd0 optimized s1 sw where
    dc: "deepcopy (guess_pulses st) (pulse_store st) = (optimized, s1)" and
    tl: "time_loop E bw ?norms (guess_pulses st) optimized (enumerate 0 (tlist_midpoints E))
       \<lparr>sw_store = s1, sw_forward_states = fwd0, sw_delta_eps = ?d0, sw_fw_states = None\<rparr>
       = Inr sw" and
    st': "pulse_store st' = sw_store sw" "guess_pulses st' = optimized"
      "forward_states st' = sw_forward_states sw" "backward_states st' = Some bw"
    by (rule iteration_Inr)
  note d = deepcopy_spec [OF dc]
  from d have dist: "distinct optimized" by simp
  from d assms(2) have copy: "cells s1 (optimized ! p) = cells (pulse_store st) (guess_pulses st ! p)"
    by (metis length_map nth_map)
  have zero: "\<forall>p<length (guess_pulses st). \<forall>m. 0 \<le> m \<and> m < 0 + length (tlist_midpoints E) \<longrightarrow>
      sw_delta_eps \<lparr>sw_store = s1, sw_forward_states = fwd0, sw_delta_eps = ?d0,
        sw_fw_states = None\<rparr> ! p ! m = 0"
    by simp
  from assms(3) have n: "0 \<le> n \<and> n < 0 + length (tlist_midpoints E)" by simp
  from time_loop_update [OF tl dist zero, rule_format, OF assms(2) n] copy
  obtain us where
    la: "lambda_a (options_list E ! p) \<noteq> 0" and
    us: "list_all2 (\<lambda>i u. update_term E bw (sw_forward_states sw) ?norms (guess_pulses st) n p i
            = Inr u) [0..<length (objectives E)] us" and
    val: "cells (sw_store sw) (optimized ! p) ! n =
       cells (pulse_store st) (guess_pulses st ! p) ! n +
       shape (options_list E ! p) (tlist_midpoints E ! n) / lambda_a (options_list E ! p) *
         Im (sum_list us)"
    by auto
  from us have len: "length us = length (objectives E)" and
    each: "\<forall>i<length (objectives E).
       update_term E bw (sw_forward_states sw) ?norms (guess_pulses st) n p i = Inr (us ! i)"
    by (auto simp: list_all2_conv_all_nth)
  have "\<forall>i<length (objectives E). \<exists>chi m psi.
        bw ! i ! n = Some chi \<and> sw_forward_states sw ! i ! n = Some psi \<and>
        derivative_wrt_pulse (op_add E) (objectives E ! i) (guess_pulses st)
          (pulses_mapping E ! i) p = Inr m \<and>
        us ! i = overlap E chi (mu_times E m psi) * complex_of_real (norm_of E (?chis ! i))"
  proof (intro allI impI)
    fix i assume "i < length (objectives E)"
    with each have "update_term E bw (sw_forward_states sw) ?norms (guess_pulses st) n p i
      = Inr (us ! i)" by simp
    then show "\<exists>chi m psi.
        bw ! i ! n = Some chi \<and> sw_forward_states sw ! i ! n = Some psi \<and>
        derivative_wrt_pulse (op_add E) (objectives E ! i) (guess_pulses st)
          (pulses_mapping E ! i) p = Inr m \<and>
        us ! i = overlap E chi (mu_times E m psi) * complex_of_real (norm_of E (?chis ! i))"
      unfolding update_term_eq_Inr by auto
  qed
  with st' len la val show ?thesis by auto
qed

text \<open>
  C6: at every midpoint index \<open>n\<close> and for every pulse \<open>p\<close>, the value of the optimized pulse is
  the value of the guess pulse plus \<open>(S\<^sub>p(t\<^sub>n) / \<lambda>\<^sub>p) * Im (\<Sum>\<^sub>i u\<^sub>i)\<close>, where \<open>u\<^sub>i\<close> is, for objective
  \<open>i\<close>, the overlap of the backward state at \<open>n\<close> with \<open>\<mu> * \<psi>\<close>, times the norm of the boundary
  costate of \<open>i\<close>; \<open>\<psi>\<close> is the forward state at \<open>n\<close> and \<open>\<mu>\<close> is what the derivative routine
  returns: the number 0 if the Hamiltonian mapping of the pulse is empty, and otherwise the
  operator that the routine's summation over the mapping yields.  Only the imaginary part
  of the sum enters.
\<close>

theorem pulse_update_formula:
  assumes "iteration E k st = Inr st'" and "p < length (guess_pulses st)"
    and "n < length (tlist_midpoints E)"
  shows "\<exists>bw us. backward_states st' = Some bw \<and> length us = length (objectives E) \<and>
     (\<forall>i<length (objectives E). \<exists>chi m psi.
        bw ! i ! n = Some chi \<and> forward_states st' ! i ! n = Some psi \<and>
        derivative_wrt_pulse (op_add E) (objectives E ! i) (guess_pulses st)
          (pulses_mapping E ! i) p = Inr m \<and>
        (let ham = pulses_mapping E ! i ! 0 ! p; Hs = H (objectives E ! i) in
         if ham = [] then m = Zero
         else \<exists>a0 c0 as.
                py_index Hs (ham ! 0) = Inr (Timedep a0 c0) \<and>
                list_all2 (\<lambda>j a. \<exists>k c. py_index ham j = Inr k \<and>
                             py_index Hs k = Inr (Timedep a c)) (tl ham) as \<and>
                m = Mu (foldl (op_add E) a0 as)) \<and>
        us ! i =
          overlap E chi (case m of Zero \<Rightarrow> zero_times E psi | Mu a \<Rightarrow> op_times E a psi) *
          complex_of_real (norm_of E
            (chi_constructor E (fw_states_T st) (objectives E) (tau_vals (res st)) ! i))) \<and>
     lambda_a (options_list E ! p) \<noteq> 0 \<and>
     cells (pulse_store st') (guess_pulses st' ! p) ! n =
       cells (pulse_store st) (guess_pulses st ! p) ! n +
       shape (options_list E ! p) (tlist_midpoints E ! n) / lambda_a (options_list E ! p) *
         Im (sum_list us)"
proof -
  let ?chis = "chi_constructor E (fw_states_T st) (objectives E) (tau_vals (res st))"
  from pulse_update_terms [OF assms] obtain bw us where
    bw: "backward_states st' = Some bw" and len: "length us = length (objectives E)" and
    each: "\<forall>i<length (objectives E). \<exists>chi m psi.
        bw ! i ! n = Some chi \<and> forward_states st' ! i ! n = Some psi \<and>
        derivative_wrt_pulse (op_add E) (objectives E ! i) (guess_pulses st)
          (pulses_mapping E ! i) p = Inr m \<and>
        us ! i = overlap E chi (mu_times E m psi) * complex_of_real (norm_of E (?chis ! i))" and
    la: "lambda_a (options_list E ! p) \<noteq> 0" and
    val: "cells (pulse_store st') (guess_pulses st' ! p) ! n =
       cells (pulse_store st) (guess_pulses st ! p) ! n +
       shape (options_list E ! p) (tlist_midpoints E ! n) / lambda_a (options_list E ! p) *
         Im (sum_list us)"
    by blast
  have "\<forall>i<length (objectives E). \<exists>chi m psi.
        bw ! i ! n = Some chi \<and> forward_states st' ! i ! n = Some psi \<and>
        derivative_wrt_pulse (op_add E) (objectives E ! i) (guess_pulses st)
          (pulses_mapping E ! i) p = Inr m \<and>
        (let ham = pulses_mapping E ! i ! 0 ! p; Hs = H (objectives E ! i) in
         if ham = [] then m = Zero
         else \<exists>a0 c0 as.
                py_index Hs (ham ! 0) = Inr (Timedep a0 c0) \<and>
                list_all2 (\<lambda>j a. \<exists>k c. py_index ham j = Inr k \<and>
                             py_index Hs k = Inr (Timedep a c)) (tl ham) as \<and>
                m = Mu (foldl (op_add E) a0 as)) \<and>
        us ! i =
          overlap E chi (case m of Zero \<Rightarrow> zero_times E psi | Mu a \<Rightarrow> op_times E a psi) *
          complex_of_real (norm_of E (?chis ! i))"
  proof (intro allI impI)
    fix i assume "i < length (objectives E)"
    with each obtain chi m psi where
      c: "bw ! i ! n = Some chi" "forward_states st' ! i ! n = Some psi" and
      d: "derivative_wrt_pulse (op_add E) (objectives E ! i) (guess_pulses st)
          (pulses_mapping E ! i) p = Inr m" and
      u: "us ! i = overlap E chi (mu_times E m psi) * complex_of_real (norm_of E (?chis ! i))"
      by blast
    from d have "let ham = pulses_mapping E ! i ! 0 ! p; Hs = H (objectives E ! i) in
         if ham = [] then m = Zero
         else \<exists>a0 c0 as.
                py_index Hs (ham ! 0) = Inr (Timedep a0 c0) \<and>
                list_all2 (\<lambda>j a. \<exists>k c. py_index ham j = Inr k \<and>
                             py_index Hs k = Inr (Timedep a c)) (tl ham) as \<and>
                m = Mu (foldl (op_add E) a0 as)"
      unfolding derivative_wrt_pulse_eq_Inr Let_def by (auto split: if_splits)
    with c d u show "\<exists>chi m psi.
        bw ! i ! n = Some chi \<and> forward_states st' ! i ! n = Some psi \<and>
        derivative_wrt_pulse (op_add E) (objectives E ! i) (guess_pulses st)
          (pulses_mapping E ! i) p = Inr m \<and>
        (let ham = pulses_mapping E ! i ! 0 ! p; Hs = H (objectives E ! i) in
         if ham = [] then m = Zero
         else \<exists>a0 c0 as.
                py_index Hs (ham ! 0) = Inr (Timedep a0 c0) \<and>
                list_all2 (\<lambda>j a. \<exists>k c. py_index ham j = Inr k \<and>
                             py_index Hs k = Inr (Timedep a c)) (tl ham) as \<and>
                m = Mu (foldl (op_add E) a0 as)) \<and>
        us ! i =
          overlap E chi (case m of Zero \<Rightarrow> zero_times E psi | Mu a \<Rightarrow> op_times E a psi) *
          complex_of_real (norm_of E (?chis ! i))"
      unfolding mu_times_def by blast
  qed
  with bw len la val show ?thesis by blast
qed

theorem pulse_update_formula_witness:
  "\<exists>st st'. initialize dissipative_env scenario_guess = Inr st \<and>
     iteration dissipative_env 1 st = Inr st' \<and> 0 < length (guess_pulses st) \<and>
     0 < length (tlist_midpoints dissipative_env) \<and>
     cells (pulse_store st) (guess_pulses st ! 0) ! 0 = 1 \<and>
     cells (pulse_store st') (guess_pulses st' ! 0) ! 0 = - 2"
proof -
  let ?E = dissipative_env
  from dissipative_first_pass obtain st st' where
    st: "initialize ?E scenario_guess = Inr st" and
    it: "iteration ?E 1 st = Inr st'" by blast
  from initialize_pulses [OF st] have g: "guess_pulses st = [0]"
    "pulse_values (pulse_store st) (guess_pulses st) = scenario_guess"
    by (auto simp: scenario_guess_def)
  then have p: "0 < length (guess_pulses st)" and
    old: "cells (pulse_store st) (guess_pulses st ! 0) ! 0 = 1"
    by (simp_all add: pulse_values_def scenario_guess_def)
  have n: "0 < length (tlist_midpoints ?E)" by (simp add: dissipative_env_def scenario_env_def)
  have "map_option (\<lambda>bw. bw ! 0 ! 0)
      (backward_states (projr (iteration ?E 1 (projr (initialize ?E scenario_guess)))))
      = Some (Some (4 + \<i>))"
    by code_simp
  with st it have chi0: "map_option (\<lambda>bw. bw ! 0 ! 0) (backward_states st') = Some (Some (4 + \<i>))"
    by simp
  have "forward_states (projr (iteration ?E 1 (projr (initialize ?E scenario_guess)))) ! 0 ! 0
      = Some 1"
    by code_simp
  with st it have psi0: "forward_states st' ! 0 ! 0 = Some 1" by simp
  from pulse_update_formula [OF it p n] obtain bw us where
    bw: "backward_states st' = Some bw" and len: "length us = length (objectives ?E)" and
    each: "\<forall>i<length (objectives ?E). \<exists>chi m psi.
        bw ! i ! 0 = Some chi \<and> forward_states st' ! i ! 0 = Some psi \<and>
        derivative_wrt_pulse (op_add ?E) (objectives ?E ! i) (guess_pulses st)
          (pulses_mapping ?E ! i) 0 = Inr m \<and>
        (let ham = pulses_mapping ?E ! i ! 0 ! 0; Hs = H (objectives ?E ! i) in
         if ham = [] then m = Zero
         else \<exists>a0 c0 as.
                py_index Hs (ham ! 0) = Inr (Timedep a0 c0) \<and>
                list_all2 (\<lambda>j a. \<exists>k c. py_index ham j = Inr k \<and>
                             py_index Hs k = Inr (Timedep a c)) (tl ham) as \<and>
                m = Mu (foldl (op_add ?E) a0 as)) \<and>
        us ! i =
          overlap ?E chi (case m of Zero \<Rightarrow> zero_times ?E psi | Mu a \<Rightarrow> op_times ?E a psi) *
          complex_of_real (norm_of ?E
            (chi_constructor ?E (fw_states_T st) (objectives ?E) (tau_vals (res st)) ! i))" and
    val: "cells (pulse_store st') (guess_pulses st' ! 0) ! 0 =
       cells (pulse_store st) (guess_pulses st ! 0) ! 0 +
       shape (options_list ?E ! 0) (tlist_midpoints ?E ! 0) / lambda_a (options_list ?E ! 0) *
         Im (sum_list us)"
    by blast
  from len obtain u where us: "us = [u]"
    by (cases us) (auto simp: dissipative_env_def scenario_env_def)
  from each bw chi0 psi0 us have "u = 12 - 3 * \<i>"
    by (auto simp: dissipative_env_def scenario_env_def dissipative_objective_def Let_def
        py_index_def algebra_simps)
  with val old us have "cells (pulse_store st') (guess_pulses st' ! 0) ! 0 = - 2"
    by (simp add: dissipative_env_def scenario_env_def)
  with st it p n old show ?thesis by blast
qed

text \<open>
  C8: within one iteration no array that existed before is written, in particular no guess
  pulse array: the update writes into the arrays of the copy, which are new, and the list of
  these new arrays becomes the guess of the next iteration.  The guess pulse arrays of a
  state are allocated in its store; every state that the driver reaches is such a state
  (\<open>krotov_run_allocated\<close>).
\<close>

theorem guess_pulses_not_mutated:
  assumes "iteration E k st = Inr st'"
    and "\<forall>a\<in>set (guess_pulses st). a < next_addr (pulse_store st)"
  shows "pulse_values (pulse_store st') (guess_pulses st) =
           pulse_values (pulse_store st) (guess_pulses st) \<and>
         (\<forall>a<next_addr (pulse_store st). cells (pulse_store st') a = cells (pulse_store st) a) \<and>
         guess_pulses st' =
           [next_addr (pulse_store st)..<next_addr (pulse_store st) + length (guess_pulses st)] \<and>
         optimized_pulses st' = Some (guess_pulses st') \<and>
         set (guess_pulses st') \<inter> set (guess_pulses st) = {}"
proof -
  from assms(1) obtain bw norms fwd0 d0 optimized s1 sw where
    dc: "deepcopy (guess_pulses st) (pulse_store st) = (optimized, s1)" and
    tl: "time_loop E bw norms (guess_pulses st) optimized (enumerate 0 (tlist_midpoints E))
       \<lparr>sw_store = s1, sw_forward_states = fwd0, sw_delta_eps = d0, sw_fw_states = None\<rparr>
       = Inr sw" and
    st': "pulse_store st' = sw_store sw" "guess_pulses st' = optimized"
      "optimized_pulses st' = Some optimized"
    by (rule iteration_Inr)
  note d = deepcopy_spec [OF dc]
  note f = time_loop_frame [OF tl]
  have old: "cells (pulse_store st') a = cells (pulse_store st) a"
    if "a < next_addr (pulse_store st)" for a
  proof -
    from that d have "a \<notin> set optimized" by simp
    with f have "cells (sw_store sw) a = cells s1 a" by simp
    with d that st' show ?thesis by simp
  qed
  with assms(2) have "pulse_values (pulse_store st') (guess_pulses st) =
           pulse_values (pulse_store st) (guess_pulses st)"
    by (simp add: pulse_values_def)
  moreover from d assms(2) st' have "set (guess_pulses st') \<inter> set (guess_pulses st) = {}"
    by auto
  ultimately show ?thesis using old d st' by simp
qed

theorem guess_pulses_not_mutated_witness:
  "\<exists>st st'. initialize scenario_env scenario_guess = Inr st \<and>
     iteration scenario_env 1 st = Inr st' \<and>
     (\<forall>a\<in>set (guess_pulses st). a < next_addr (pulse_store st)) \<and>
     guess_pulses st = [0] \<and> guess_pulses st' = [1] \<and>
     pulse_values (pulse_store st') (guess_pulses st) = scenario_guess"
proof -
  from scenario_first_pass obtain st st' where
    st: "initialize scenario_env scenario_guess = Inr st" and
    it: "iteration scenario_env 1 st = Inr st'" by blast
  from initialize_pulses [OF st] have g: "guess_pulses st = [0]"
    "next_addr (pulse_store st) = 1"
    "pulse_values (pulse_store st) (guess_pulses st) = scenario_guess"
    by (auto simp: scenario_guess_def)
  then have wf: "\<forall>a\<in>set (guess_pulses st). a < next_addr (pulse_store st)" by simp
  from guess_pulses_not_mutated [OF it wf] g have
    "guess_pulses st' = [1]"
    "pulse_values (pulse_store st') (guess_pulses st) = scenario_guess"
    by simp_all
  with st it wf g show ?thesis by blast
qed

text \<open>
  C7: if every shape function is 0 at every midpoint, then after any number of iterations the
  optimized pulses have exactly the values of the guess pulses; the controls of the result
  are their conversion to the time grid.
\<close>

theorem zero_shape_keeps_guess:
  assumes "optimize_pulses E guess iter_start iter_stop check_convergence = Inr (s, r)"
    and "\<forall>p<length (options_list E). \<forall>t\<in>set (tlist_midpoints E). shape (options_list E ! p) t = 0"
  shows "\<exists>st ps cs. krotov_run E guess iter_start iter_stop = Inr st \<and>
     optimized_pulses st = Some ps \<and> pulse_values (pulse_store st) ps = guess \<and>
     optimized_controls r = Some cs \<and> pulse_values s cs = map (pulse_onto_tlist E) guess"
proof -
  from assms(1) obtain st0 st where init: "initialize E guess = Inr st0" and
    loop: "krotov_loop E [iter_start + 1..iter_stop] st0 = Inr st" and
    run: "krotov_run E guess iter_start iter_stop = Inr st" and
    fin: "finalize E st = Inr (s, r)"
    by (auto simp: optimize_pulses_def krotov_run_def ebind_eq_Inr)
  from finalize_Inr [OF fin] obtain ps cs where
    ps: "optimized_pulses st = Some ps" and cs: "optimized_controls r = Some cs" and
    vals: "pulse_values s cs = map (pulse_onto_tlist E) (pulse_values (pulse_store st) ps)"
    by blast
  from initialize_optimized_pulses [OF init] krotov_loop_optimized_pulses [OF loop] ps
  have "ps = guess_pulses st" by simp
  moreover from krotov_loop_zero_shape [OF loop assms(2)] initialize_pulses [OF init]
  have "pulse_values (pulse_store st) (guess_pulses st) = guess" by auto
  ultimately show ?thesis using run ps cs vals by simp
qed

theorem zero_shape_keeps_guess_witness:
  "\<exists>s r st ps. optimize_pulses zero_shape_env scenario_guess 0 2 None = Inr (s, r) \<and>
     (\<forall>p<length (options_list zero_shape_env). \<forall>t\<in>set (tlist_midpoints zero_shape_env).
        shape (options_list zero_shape_env ! p) t = 0) \<and>
     krotov_run zero_shape_env scenario_guess 0 2 = Inr st \<and>
     optimized_pulses st = Some ps \<and> pulse_values (pulse_store st) ps = scenario_guess"
proof -
  have "\<not> isl (optimize_pulses zero_shape_env scenario_guess 0 2 None)" by code_simp
  then obtain s r where run: "optimize_pulses zero_shape_env scenario_guess 0 2 None = Inr (s, r)"
    by (cases "optimize_pulses zero_shape_env scenario_guess 0 2 None") auto
  have z: "\<forall>p<length (options_list zero_shape_env). \<forall>t\<in>set (tlist_midpoints zero_shape_env).
        shape (options_list zero_shape_env ! p) t = 0"
    by (simp add: zero_shape_env_def)
  from zero_shape_keeps_guess [OF run z] run z show ?thesis by blast
qed

subsection \<open>The driver\<close>

text \<open>The result of a run does not depend on the convergence predicate, and no run without
  an info hook returns a result.\<close>

lemma optimize_pulses_ignores_predicate:
  "optimize_pulses E guess iter_start iter_stop check_convergence =
   optimize_pulses E guess iter_start iter_stop None"
  by (simp add: optimize_pulses_def)

lemma initialize_without_hook:
  "info_hook E = None \<Longrightarrow> isl (initialize E guess)"
  by (auto simp: initialize_def Let_def ebind_def split: sum.splits prod.splits)

lemma optimize_pulses_without_hook:
  "info_hook E = None \<Longrightarrow> isl (optimize_pulses E guess iter_start iter_stop check_convergence)"
  using initialize_without_hook [of E guess]
  by (cases "initialize E guess") (simp_all add: optimize_pulses_def krotov_run_def)

text \<open>
  C1 (the code does not do this): a convergence predicate that is supplied is evaluated after
  each iteration and its answer \<open>True\<close> ends the loop before \<open>iter_stop\<close>.  The code never
  calls the predicate: in the scenario, with the predicate that always answers \<open>True\<close> and
  \<open>iter_stop = 2\<close>, the loop runs through the iterations 1 and 2.
\<close>

theorem check_convergence_never_called:
  "map_sum id (\<lambda>(s, r). iters r)
     (optimize_pulses scenario_env scenario_guess 0 2 (Some (\<lambda>r. True))) = Inr [0, 1, 2]"
  by code_simp

text \<open>
  C4 (the code does not do this): the info hook is optional, and without it the optimisation
  completes and stores \<open>None\<close> as the info value of every iteration.  The code tests the hook
  for \<open>None\<close> inside the loop only; the bookkeeping of iteration 0 calls it untested, so the
  scenario without a hook ends with a TypeError.
\<close>

theorem info_hook_None_raises:
  "map_sum id (\<lambda>(s, r). info_vals r)
     (optimize_pulses (scenario_env\<lparr>info_hook := None\<rparr>) scenario_guess 0 2 None)
   = Inl TypeError"
  by code_simp

text \<open>
  C5 (the code does not do this): for \<open>iter_start = 0\<close> and \<open>iter_stop = 2\<close> the result has
  the iterations 0, 1, 2 and exactly three entries in \<open>iter_seconds\<close>.  The code appends the
  seconds of iteration 0 twice, so the scenario ends with four entries.
\<close>

theorem iter_seconds_has_four_entries:
  "map_sum id (\<lambda>(s, r). (iters r, length (iter_seconds r), iter_seconds r))
     (optimize_pulses scenario_env scenario_guess 0 2 None) = Inr ([0, 1, 2], 4, [1, 1, 1, 1])"
  by code_simp

text \<open>
  C10: if \<open>iter_stop \<le> iter_start\<close>, the loop makes no pass (the state after the loop is the
  state after the initialisation), and the finalisation, which reads \<open>optimized_pulses\<close>,
  fails with UnboundLocalError instead of returning a result.  The finalisation is reached
  if the initialisation succeeds.
\<close>

theorem no_pass_unbound_local:
  assumes "iter_stop \<le> iter_start" and "initialize E guess = Inr st"
  shows "krotov_run E guess iter_start iter_stop = Inr st \<and>
         optimize_pulses E guess iter_start iter_stop check_convergence = Inl UnboundLocalError"
proof -
  from assms(1) have "[iter_start + 1..iter_stop] = []" by simp
  with assms(2) have run: "krotov_run E guess iter_start iter_stop = Inr st"
    by (simp add: krotov_run_def)
  moreover have "finalize E st = Inl UnboundLocalError"
    using initialize_optimized_pulses [OF assms(2)] by (simp add: finalize_def)
  ultimately show ?thesis by (simp add: optimize_pulses_def)
qed

theorem no_pass_unbound_local_witness:
  "(0::int) \<le> 0 \<and> \<not> isl (initialize scenario_env scenario_guess) \<and>
   optimize_pulses scenario_env scenario_guess 0 0 None = Inl UnboundLocalError"
proof -
  have ok: "\<not> isl (initialize scenario_env scenario_guess)" by code_simp
  then obtain st where st: "initialize scenario_env scenario_guess = Inr st"
    by (cases "initialize scenario_env scenario_guess") auto
  from no_pass_unbound_local [OF _ st, of 0 0 None] ok show ?thesis by simp
qed

subsection \<open>The control derivative\<close>

text \<open>
  C2 (the code does not do this): the derivative for a pulse is the sum of the operators of
  the Hamiltonian entries that the mapping lists for it; for the positions 1 and 2 it is the
  operator of entry 1 plus that of entry 2.  The loop over the remaining positions indexes
  the mapping with the position, and for the positions 1 and 2 that index is out of range.
\<close>

theorem derivative_positions_1_2_raises:
  "derivative_wrt_pulse (+) three_term_objective [] [[[1, 2]], [[]]] 0 = Inl IndexError"
  by code_simp

text \<open>
  C3 (the code does not do this): the derivative raises NotImplementedError exactly if the
  mapping of some dissipation operator for the pulse is not empty, also when the mapping of
  the Hamiltonian for the pulse is empty.  With an empty mapping of the Hamiltonian the code
  returns 0 before it looks at the dissipation operators.
\<close>

theorem derivative_empty_mapping_returns_zero:
  "derivative_wrt_pulse (+) three_term_objective [] [[[]], [[0]]] 0 = Inr Zero"
  by code_simp

end
